theory Spec2Isabelle
  imports Main
begin

section \<open>argparse.hxx: exceptions, converters and windows\<close>

text \<open>
  The ways a call of the header's code can leave without returning: the converter
  throws, \<^verbatim>\<open>std::runtime_error\<close> is thrown at registration, \<^verbatim>\<open>abort()\<close> is
  called, or the null result of a failed \<^verbatim>\<open>dynamic_cast\<close> is dereferenced.
\<close>

datatype exn =
    Conversion_failure
  | Runtime_error string
  | Abort
  | Null_dereference

text \<open>
  \<^verbatim>\<open>template <typename T> static auto parse(char const *const s) -> T\<close> is only
  declared in the header (with its specialisations for \<^verbatim>\<open>int\<close> and
  \<^verbatim>\<open>std::string\<close>), so every function that calls it takes the converter as its
  first argument. \<open>None\<close> is a conversion that does not return a \<open>T\<close>: it throws, and
  the exception leaves the caller as \<open>Conversion_failure\<close>.

  A token window \<^verbatim>\<open>(argv, len)\<close> is the list of its \<^verbatim>\<open>len\<close> tokens, as
  \<^verbatim>\<open>std::span(argv, len)\<close> reads it; \<^verbatim>\<open>len\<close> is the length of that list as an
  \<^verbatim>\<open>int\<close>.
\<close>

type_synonym 'a converter = "string \<Rightarrow> 'a option"

definition INT_MAX :: int where
  "INT_MAX = 2147483647"

text \<open>\<^verbatim>\<open>std::numeric_limits<size_t>::max()\<close>, for a 64-bit \<^verbatim>\<open>size_t\<close>.\<close>

definition SIZE_MAX :: nat where
  "SIZE_MAX = 18446744073709551615"

section \<open>The argument classes\<close>

text \<open>\<^verbatim>\<open>class optional\<close>: \<^verbatim>\<open>_short\<close>, \<^verbatim>\<open>_long\<close>, \<^verbatim>\<open>_desc\<close>.\<close>

record optional =
  opt_short :: char
  opt_long :: string
  opt_desc :: string

text \<open>
  \<^verbatim>\<open>optional_value<T>\<close> adds \<^verbatim>\<open>std::variant<std::monostate, T> _value\<close>
  (\<open>None\<close> is \<^verbatim>\<open>std::monostate\<close>), \<^verbatim>\<open>optional_list<T>\<close> adds
  \<^verbatim>\<open>std::vector<T> _values\<close>.
\<close>

record 'a optional_value = optional +
  ov_value :: "'a option"

record 'a optional_list = optional +
  ol_values :: "'a list"

text \<open>\<^verbatim>\<open>class argument\<close>: \<^verbatim>\<open>_name\<close>, \<^verbatim>\<open>_desc\<close>.\<close>

record argument =
  arg_name :: string
  arg_desc :: string

text \<open>
  \<^verbatim>\<open>required_value<T>\<close> declares a private \<^verbatim>\<open>_name\<close> of its own, which hides
  the one of \<^verbatim>\<open>argument\<close> and is never assigned (\<open>rv_name\<close>), and the variant
  \<^verbatim>\<open>_value\<close>; \<^verbatim>\<open>required_list<T>\<close> adds the vector \<^verbatim>\<open>_values\<close>.
\<close>

record 'a required_value = argument +
  rv_name :: string
  rv_value :: "'a option"

record 'a required_list = argument +
  rl_values :: "'a list"

subsection \<open>Constructors\<close>

text \<open>
  The constructors of the four class templates are in the header: they pass their
  arguments to the constructor of the base class and leave \<^verbatim>\<open>_value\<close> holding
  \<^verbatim>\<open>std::monostate\<close>, or \<^verbatim>\<open>_values\<close> empty. Modelled from the spec: the constructors
  of the base classes \<^verbatim>\<open>optional\<close> and \<^verbatim>\<open>argument\<close> are declared in the header and
  defined outside it; they store their arguments (names and descriptions stay accessible
  as the text they were given).
\<close>

definition optional_value_new :: "char \<Rightarrow> string \<Rightarrow> string \<Rightarrow> 'a optional_value" where
  "optional_value_new s l d =
     \<lparr>opt_short = s, opt_long = l, opt_desc = d, ov_value = None\<rparr>"

definition optional_list_new :: "char \<Rightarrow> string \<Rightarrow> string \<Rightarrow> 'a optional_list" where
  "optional_list_new s l d =
     \<lparr>opt_short = s, opt_long = l, opt_desc = d, ol_values = []\<rparr>"

definition required_value_new :: "string \<Rightarrow> string \<Rightarrow> 'a required_value" where
  "required_value_new n d =
     \<lparr>arg_name = n, arg_desc = d, rv_name = [], rv_value = None\<rparr>"

definition required_list_new :: "string \<Rightarrow> string \<Rightarrow> 'a required_list" where
  "required_list_new n d = \<lparr>arg_name = n, arg_desc = d, rl_values = []\<rparr>"

subsection \<open>\<^verbatim>\<open>get_value\<close>, \<^verbatim>\<open>get_values\<close> and \<^verbatim>\<open>takes\<close>\<close>

text \<open>
  \<^verbatim>\<open>get_value\<close> is \<^verbatim>\<open>std::get_if<T>(&_value)\<close>: a null pointer (\<open>None\<close>) while the
  variant holds \<^verbatim>\<open>std::monostate\<close>.
\<close>

definition optional_value_get_value :: "'a optional_value \<Rightarrow> 'a option" where
  "optional_value_get_value this = ov_value this"

definition required_value_get_value :: "'a required_value \<Rightarrow> 'a option" where
  "required_value_get_value this = rv_value this"

definition optional_list_get_values :: "'a optional_list \<Rightarrow> 'a list" where
  "optional_list_get_values this = ol_values this"

definition required_list_get_values :: "'a required_list \<Rightarrow> 'a list" where
  "required_list_get_values this = rl_values this"

definition optional_value_takes :: "'a optional_value \<Rightarrow> nat" where
  "optional_value_takes this = 1"

definition required_value_takes :: "'a required_value \<Rightarrow> nat" where
  "required_value_takes this = 1"

definition optional_list_takes :: "'a optional_list \<Rightarrow> nat" where
  "optional_list_takes this = SIZE_MAX"

definition required_list_takes :: "'a required_list \<Rightarrow> nat" where
  "required_list_takes this = SIZE_MAX"

subsection \<open>\<^verbatim>\<open>parse\<close> of the value and list classes\<close>

text \<open>
  A call returns its outcome (the \<^verbatim>\<open>int\<close> returned, or the exception that left
  it) and the object as the call left it. The assignment to \<^verbatim>\<open>_value\<close> happens
  only after the converter has returned.
\<close>

definition optional_value_parse ::
  "'a converter \<Rightarrow> string list \<Rightarrow> 'a optional_value \<Rightarrow> (exn + int) \<times> 'a optional_value" where
  "optional_value_parse conv argv this =
     (let len = int (length argv) in
      if len < 1 then (Inr (- 1), this)
      else (case conv (argv ! 0) of
              None \<Rightarrow> (Inl Conversion_failure, this)
            | Some v \<Rightarrow> (Inr 1, this\<lparr>ov_value := Some v\<rparr>)))"

definition required_value_parse ::
  "'a converter \<Rightarrow> string list \<Rightarrow> 'a required_value \<Rightarrow> (exn + int) \<times> 'a required_value" where
  "required_value_parse conv argv this =
     (let len = int (length argv) in
      if len < 1 then (Inr (- 1), this)
      else (case conv (argv ! 0) of
              None \<Rightarrow> (Inl Conversion_failure, this)
            | Some v \<Rightarrow> (Inr 1, this\<lparr>rv_value := Some v\<rparr>)))"

text \<open>
  The loop \<^verbatim>\<open>for (const auto &v : std::span(argv, len))\<close> of both list classes:
  each token is converted and pushed to the back of \<^verbatim>\<open>_values\<close>, and \<^verbatim>\<open>cnt\<close>
  counts it. A conversion that throws leaves the loop with what was pushed so far.
\<close>

fun push_back_loop ::
  "'a converter \<Rightarrow> string list \<Rightarrow> 'a list \<Rightarrow> int \<Rightarrow> (exn + int) \<times> 'a list" where
  "push_back_loop conv [] vals cnt = (Inr cnt, vals)"
| "push_back_loop conv (v # span) vals cnt =
     (case conv v of
        None \<Rightarrow> (Inl Conversion_failure, vals)
      | Some x \<Rightarrow> push_back_loop conv span (vals @ [x]) (cnt + 1))"

definition optional_list_parse ::
  "'a converter \<Rightarrow> string list \<Rightarrow> 'a optional_list \<Rightarrow> (exn + int) \<times> 'a optional_list" where
  "optional_list_parse conv argv this =
     (let len = int (length argv) in
      if len < 1 then (Inr (- 1), this)
      else (case push_back_loop conv argv (ol_values this) 0 of
              (r, vals) \<Rightarrow> (r, this\<lparr>ol_values := vals\<rparr>)))"

definition required_list_parse ::
  "'a converter \<Rightarrow> string list \<Rightarrow> 'a required_list \<Rightarrow> (exn + int) \<times> 'a required_list" where
  "required_list_parse conv argv this =
     (let len = int (length argv) in
      if len < 1 then (Inr (- 1), this)
      else (case push_back_loop conv argv (rl_values this) 0 of
              (r, vals) \<Rightarrow> (r, this\<lparr>rl_values := vals\<rparr>)))"

section \<open>The classes a command owns\<close>

text \<open>
  \<^verbatim>\<open>optional_flag\<close> adds \<^verbatim>\<open>size_t _cnt\<close> and \<^verbatim>\<open>bool _flag\<close>. The counter
  counts matched tokens of one argument vector, far below the range of \<^verbatim>\<open>size_t\<close>,
  and is a natural number here.
\<close>

record optional_flag = optional +
  flag_cnt :: nat
  flag_flag :: bool

text \<open>
  The types the template parameter \<^verbatim>\<open>T\<close> is instantiated with are those with a
  declared specialisation of the converter, \<^verbatim>\<open>int\<close> and \<^verbatim>\<open>std::string\<close>; a
  payload is a value of one of them.
\<close>

datatype ty = T_int | T_string

datatype val = Int_val int | String_val string

text \<open>
  \<^verbatim>\<open>std::vector<std::unique_ptr<optional>>\<close> and
  \<^verbatim>\<open>std::vector<std::unique_ptr<argument>>\<close> hold objects of the derived classes;
  the constructor of the datatype is the dynamic type of the object.
\<close>

datatype optional_spec =
    Optional_flag optional_flag
  | Optional_value ty "val optional_value"
  | Optional_list ty "val optional_list"

datatype required_spec =
    Required_value ty "val required_value"
  | Required_list ty "val required_list"

text \<open>The template arguments \<^verbatim>\<open>Opt\<close>, \<^verbatim>\<open>Arg\<close> and \<^verbatim>\<open>T\<close> of the registry methods.\<close>

datatype optional_class =
    Optional_flag_class
  | Optional_value_class ty
  | Optional_list_class ty

datatype required_class =
    Required_value_class ty
  | Required_list_class ty

fun optional_class_of :: "optional_spec \<Rightarrow> optional_class" where
  "optional_class_of (Optional_flag f) = Optional_flag_class"
| "optional_class_of (Optional_value T v) = Optional_value_class T"
| "optional_class_of (Optional_list T l) = Optional_list_class T"

fun required_class_of :: "required_spec \<Rightarrow> required_class" where
  "required_class_of (Required_value T v) = Required_value_class T"
| "required_class_of (Required_list T l) = Required_list_class T"

text \<open>
  Modelled from the spec: the constructor of \<^verbatim>\<open>optional_flag\<close> is declared in the
  header and defined outside it. A flag that has not been matched has occurrence count 0
  and is not set.
\<close>

definition optional_flag_new :: "char \<Rightarrow> string \<Rightarrow> string \<Rightarrow> optional_flag" where
  "optional_flag_new s l d =
     \<lparr>opt_short = s, opt_long = l, opt_desc = d, flag_cnt = 0, flag_flag = False\<rparr>"

text \<open>\<^verbatim>\<open>std::make_unique<Opt>(_short, _long, _desc)\<close> and \<^verbatim>\<open>std::make_unique<Arg>(_name, _desc)\<close>.\<close>

fun make_optional :: "optional_class \<Rightarrow> char \<Rightarrow> string \<Rightarrow> string \<Rightarrow> optional_spec" where
  "make_optional Optional_flag_class s l d = Optional_flag (optional_flag_new s l d)"
| "make_optional (Optional_value_class T) s l d = Optional_value T (optional_value_new s l d)"
| "make_optional (Optional_list_class T) s l d = Optional_list T (optional_list_new s l d)"

fun make_required :: "required_class \<Rightarrow> string \<Rightarrow> string \<Rightarrow> required_spec" where
  "make_required (Required_value_class T) n d = Required_value T (required_value_new n d)"
| "make_required (Required_list_class T) n d = Required_list T (required_list_new n d)"

text \<open>
  Modelled from the spec: the bodies of \<^verbatim>\<open>optional::abbr\<close> and
  \<^verbatim>\<open>argument::name\<close> are not in the header. They give the short and long flag, and
  the name, that the spec was constructed with.
\<close>

fun optional_abbr :: "optional_spec \<Rightarrow> char \<times> string" where
  "optional_abbr (Optional_flag f) = (opt_short f, opt_long f)"
| "optional_abbr (Optional_value T v) = (opt_short v, opt_long v)"
| "optional_abbr (Optional_list T l) = (opt_short l, opt_long l)"

fun argument_name :: "required_spec \<Rightarrow> string" where
  "argument_name (Required_value T v) = arg_name v"
| "argument_name (Required_list T l) = arg_name l"

section \<open>\<^verbatim>\<open>class command\<close>\<close>

text \<open>
  The fields of \<^verbatim>\<open>command\<close>: the \<^verbatim>\<open>argument\<close> it derives from, \<^verbatim>\<open>_base\<close>,
  \<^verbatim>\<open>_optional\<close>, \<^verbatim>\<open>_required\<close> and \<^verbatim>\<open>_commands\<close>.
\<close>

datatype command =
  Command (cmd_argument: argument) (cmd_base: string) (cmd_optional: "optional_spec list")
    (cmd_required: "required_spec list") (cmd_commands: "command list")

text \<open>
  Modelled from the spec: the constructor \<^verbatim>\<open>command(_name, _desc)\<close> is declared in
  the header and defined outside it. A new command has empty registries.
\<close>

definition command_new :: "string \<Rightarrow> string \<Rightarrow> command" where
  "command_new n d = Command \<lparr>arg_name = n, arg_desc = d\<rparr> [] [] [] []"

subsection \<open>Registration\<close>

text \<open>
  \<^verbatim>\<open>add_optional_arg<Opt>\<close> returns \<^verbatim>\<open>*reinterpret_cast<Opt *>(_optional.back().get())\<close>:
  a reference to the object the last element of \<^verbatim>\<open>_optional\<close> owns. The reference
  is its index in \<^verbatim>\<open>_optional\<close>; the vector only grows, at the back.
  A call returns its outcome and the command as the call left it. The message of the
  exception appends \<^verbatim>\<open>_long.data()\<close>, the characters up to the terminating zero, which
  are those of \<^verbatim>\<open>_long\<close> for a view of a whole C string.
\<close>

fun add_optional_arg ::
  "optional_class \<Rightarrow> char \<Rightarrow> string \<Rightarrow> string \<Rightarrow> command \<Rightarrow> (exn + nat) \<times> command" where
  "add_optional_arg cls s l d (Command a b os rs cs) =
     (let opt = make_optional cls s l d in
      if list_ex (\<lambda>ptr. case optional_abbr ptr of (s', l') \<Rightarrow> s' = s \<or> l' = l) os
      then (Inl (Runtime_error (''Duplicated optional argument for '' @ [s] @ ''/'' @ l)),
            Command a b os rs cs)
      else (let os' = os @ [opt] in (Inr (length os' - 1), Command a b os' rs cs)))"

text \<open>
  \<^verbatim>\<open>add_required_arg<Arg>\<close> has the return type \<^verbatim>\<open>auto\<close> and no
  \<^verbatim>\<open>return\<close> statement: it returns \<^verbatim>\<open>void\<close>.
\<close>

fun add_required_arg ::
  "required_class \<Rightarrow> string \<Rightarrow> string \<Rightarrow> command \<Rightarrow> (exn + unit) \<times> command" where
  "add_required_arg cls n d (Command a b os rs cs) =
     (let arg = make_required cls n d in
      if list_ex (\<lambda>ptr. n = argument_name ptr) rs
      then (Inl (Runtime_error (''Duplicated required argument for '' @ n)),
            Command a b os rs cs)
      else (Inr (), Command a b os (rs @ [arg]) cs))"

definition add_opt_flag :: "char \<Rightarrow> string \<Rightarrow> string \<Rightarrow> command \<Rightarrow> (exn + nat) \<times> command" where
  "add_opt_flag flag long_flag description = add_optional_arg Optional_flag_class flag long_flag description"

definition add_opt_value :: "ty \<Rightarrow> char \<Rightarrow> string \<Rightarrow> string \<Rightarrow> command \<Rightarrow> (exn + nat) \<times> command" where
  "add_opt_value T flag long_flag description =
     add_optional_arg (Optional_value_class T) flag long_flag description"

definition add_opt_list :: "ty \<Rightarrow> char \<Rightarrow> string \<Rightarrow> string \<Rightarrow> command \<Rightarrow> (exn + nat) \<times> command" where
  "add_opt_list T flag long_flag description =
     add_optional_arg (Optional_list_class T) flag long_flag description"

text \<open>
  \<^verbatim>\<open>add_req_value<T>\<close> and the two-argument \<^verbatim>\<open>add_req_list<T>\<close> are declared to
  return \<^verbatim>\<open>optional_value<T> const &\<close> and \<^verbatim>\<open>optional_list<T> const &\<close>, and
  their bodies return what \<^verbatim>\<open>add_required_arg\<close> returns, which is \<^verbatim>\<open>void\<close>.
  The three-argument \<^verbatim>\<open>add_req_list<T>\<close> calls
  \<^verbatim>\<open>add_optional_arg<optional_list<T>>\<close>.
\<close>

definition add_req_value :: "ty \<Rightarrow> string \<Rightarrow> string \<Rightarrow> command \<Rightarrow> (exn + unit) \<times> command" where
  "add_req_value T name description = add_required_arg (Required_value_class T) name description"

definition add_req_list :: "ty \<Rightarrow> string \<Rightarrow> string \<Rightarrow> command \<Rightarrow> (exn + unit) \<times> command" where
  "add_req_list T name description = add_required_arg (Required_list_class T) name description"

definition add_req_list_flag ::
  "ty \<Rightarrow> char \<Rightarrow> string \<Rightarrow> string \<Rightarrow> command \<Rightarrow> (exn + nat) \<times> command" where
  "add_req_list_flag T flag long_flag description =
     add_optional_arg (Optional_list_class T) flag long_flag description"

subsection \<open>Retrieval by name\<close>

text \<open>
  \<^verbatim>\<open>get_optional<T>\<close> filters \<^verbatim>\<open>_optional\<close> by the long flag, calls
  \<^verbatim>\<open>abort()\<close> when nothing is left, and dereferences the \<^verbatim>\<open>dynamic_cast\<close> of
  the first match, which is null when the object is of another class.
\<close>

definition get_optional :: "optional_class \<Rightarrow> string \<Rightarrow> command \<Rightarrow> exn + optional_spec" where
  "get_optional cls l c =
     (case filter (\<lambda>ptr. case optional_abbr ptr of (s', l') \<Rightarrow> l' = l) (cmd_optional c) of
        [] \<Rightarrow> Inl Abort
      | ptr # _ \<Rightarrow> if optional_class_of ptr = cls then Inr ptr else Inl Null_dereference)"

definition get_required :: "required_class \<Rightarrow> string \<Rightarrow> command \<Rightarrow> exn + required_spec" where
  "get_required cls n c =
     (case filter (\<lambda>ptr. argument_name ptr = n) (cmd_required c) of
        [] \<Rightarrow> Inl Abort
      | ptr # _ \<Rightarrow> if required_class_of ptr = cls then Inr ptr else Inl Null_dereference)"

definition get_opt_flag :: "string \<Rightarrow> command \<Rightarrow> exn + optional_spec" where
  "get_opt_flag long_flag = get_optional Optional_flag_class long_flag"

definition get_opt_value :: "ty \<Rightarrow> string \<Rightarrow> command \<Rightarrow> exn + optional_spec" where
  "get_opt_value T long_flag = get_optional (Optional_value_class T) long_flag"

definition get_opt_list :: "ty \<Rightarrow> string \<Rightarrow> command \<Rightarrow> exn + optional_spec" where
  "get_opt_list T long_flag = get_optional (Optional_list_class T) long_flag"

definition get_req_value :: "ty \<Rightarrow> string \<Rightarrow> command \<Rightarrow> exn + required_spec" where
  "get_req_value T name = get_required (Required_value_class T) name"

definition get_req_list :: "ty \<Rightarrow> string \<Rightarrow> command \<Rightarrow> exn + required_spec" where
  "get_req_list T name = get_required (Required_list_class T) name"

section \<open>Sequences of calls\<close>

text \<open>
  Successive calls of \<^verbatim>\<open>parse\<close> on one value object, one window per call, each of
  which has to return a count (not the sentinel, and not leave by an exception): the
  object after the last call, or \<open>None\<close> when a call was not successful.
\<close>

fun optional_value_parse_seq ::
  "'a converter \<Rightarrow> string list list \<Rightarrow> 'a optional_value \<Rightarrow> 'a optional_value option" where
  "optional_value_parse_seq conv [] this = Some this"
| "optional_value_parse_seq conv (argv # calls) this =
     (case optional_value_parse conv argv this of
        (Inr n, this') \<Rightarrow> if 0 \<le> n then optional_value_parse_seq conv calls this' else None
      | (Inl e, this') \<Rightarrow> None)"

fun required_value_parse_seq ::
  "'a converter \<Rightarrow> string list list \<Rightarrow> 'a required_value \<Rightarrow> 'a required_value option" where
  "required_value_parse_seq conv [] this = Some this"
| "required_value_parse_seq conv (argv # calls) this =
     (case required_value_parse conv argv this of
        (Inr n, this') \<Rightarrow> if 0 \<le> n then required_value_parse_seq conv calls this' else None
      | (Inl e, this') \<Rightarrow> None)"

section \<open>The parts defined outside the header\<close>

subsection \<open>Value conversion\<close>

text \<open>
  Modelled from the spec: the specialisations of \<^verbatim>\<open>argparse::parse<T>\<close> for
  \<^verbatim>\<open>std::string\<close> and \<^verbatim>\<open>int\<close> are declared in the header and defined outside
  it. The spec's built-in conversions are the verbatim string (always succeeds, identity
  transform) and the signed integer (full-range, base-10, fails on non-numeric or
  out-of-range text).
\<close>

definition parse_string :: "string converter" where
  "parse_string s = Some s"

definition digit_of :: "char \<Rightarrow> int option" where
  "digit_of ch =
     (let n = (of_char ch :: int) in if 48 \<le> n \<and> n \<le> 57 then Some (n - 48) else None)"

fun digits_value :: "string \<Rightarrow> int \<Rightarrow> int option" where
  "digits_value [] acc = Some acc"
| "digits_value (ch # s) acc =
     (case digit_of ch of None \<Rightarrow> None | Some dv \<Rightarrow> digits_value s (10 * acc + dv))"

definition parse_int :: "int converter" where
  "parse_int s =
     (case s of
        [] \<Rightarrow> None
      | ch # rest \<Rightarrow>
          if ch = CHR ''-'' then
            (if rest = [] then None
             else (case digits_value rest 0 of
                     None \<Rightarrow> None
                   | Some n \<Rightarrow> if n \<le> INT_MAX + 1 then Some (- n) else None))
          else (case digits_value s 0 of
                  None \<Rightarrow> None
                | Some n \<Rightarrow> if n \<le> INT_MAX then Some n else None))"

text \<open>The converter a class template instantiated with \<^verbatim>\<open>T\<close> calls.\<close>

fun convert :: "ty \<Rightarrow> val converter" where
  "convert T_int s = map_option Int_val (parse_int s)"
| "convert T_string s = map_option String_val (parse_string s)"

subsection \<open>\<^verbatim>\<open>optional_flag\<close>\<close>

text \<open>
  Modelled from the spec: \<^verbatim>\<open>cnt\<close>, \<^verbatim>\<open>is_set\<close>, \<^verbatim>\<open>takes\<close> and \<^verbatim>\<open>parse\<close> of
  \<^verbatim>\<open>optional_flag\<close> are declared in the header and defined outside it. A flag has
  arity 0; matched, it ignores any following tokens, increments its occurrence counter
  and sets its boolean.
\<close>

definition optional_flag_cnt :: "optional_flag \<Rightarrow> nat" where
  "optional_flag_cnt this = flag_cnt this"

definition optional_flag_is_set :: "optional_flag \<Rightarrow> bool" where
  "optional_flag_is_set this = flag_flag this"

definition optional_flag_takes :: "optional_flag \<Rightarrow> nat" where
  "optional_flag_takes this = 0"

definition optional_flag_parse :: "string list \<Rightarrow> optional_flag \<Rightarrow> (exn + int) \<times> optional_flag" where
  "optional_flag_parse argv this =
     (Inr 0, this\<lparr>flag_cnt := flag_cnt this + 1, flag_flag := True\<rparr>)"

subsection \<open>Virtual calls\<close>

text \<open>
  \<^verbatim>\<open>ptr->takes()\<close> and \<^verbatim>\<open>ptr->parse(argv, len)\<close> on an element of a registry call
  the override of the object's class.
\<close>

fun optional_takes :: "optional_spec \<Rightarrow> nat" where
  "optional_takes (Optional_flag f) = optional_flag_takes f"
| "optional_takes (Optional_value T v) = optional_value_takes v"
| "optional_takes (Optional_list T l) = optional_list_takes l"

fun required_takes :: "required_spec \<Rightarrow> nat" where
  "required_takes (Required_value T v) = required_value_takes v"
| "required_takes (Required_list T l) = required_list_takes l"

fun optional_parse :: "string list \<Rightarrow> optional_spec \<Rightarrow> (exn + int) \<times> optional_spec" where
  "optional_parse argv (Optional_flag f) =
     (case optional_flag_parse argv f of (r, f') \<Rightarrow> (r, Optional_flag f'))"
| "optional_parse argv (Optional_value T v) =
     (case optional_value_parse (convert T) argv v of (r, v') \<Rightarrow> (r, Optional_value T v'))"
| "optional_parse argv (Optional_list T l) =
     (case optional_list_parse (convert T) argv l of (r, l') \<Rightarrow> (r, Optional_list T l'))"

fun required_parse :: "string list \<Rightarrow> required_spec \<Rightarrow> (exn + int) \<times> required_spec" where
  "required_parse argv (Required_value T v) =
     (case required_value_parse (convert T) argv v of (r, v') \<Rightarrow> (r, Required_value T v'))"
| "required_parse argv (Required_list T l) =
     (case required_list_parse (convert T) argv l of (r, l') \<Rightarrow> (r, Required_list T l'))"

section \<open>The parsing engine\<close>

text \<open>
  Modelled from the spec: \<^verbatim>\<open>command::parse\<close> and \<^verbatim>\<open>parser::parse\<close> are declared
  in the header and defined outside it. The definitions of this section follow the
  spec's description of the engine (the state machine of a command invocation over a
  shrinking token window), step by step; the calls of \<^verbatim>\<open>takes\<close> and \<^verbatim>\<open>parse\<close>
  on the value and list objects are those of the header.
\<close>

text \<open>Modelled from the spec: the error kinds of a parse.\<close>

datatype parse_error =
    UnknownOption
  | MissingValue
  | ConversionFailure
  | UnsatisfiedRequired
  | UnexpectedToken
  | AmbiguousShortGroup

text \<open>
  Modelled from the spec: token classification. A long flag begins with the two-dash prefix; a short flag or
  short-flag group begins with a single dash and is not exactly the lone dash; any other
  token is a positional or subcommand candidate.
\<close>

datatype token_class = Long_flag | Short_flag | Positional

definition classify :: "string \<Rightarrow> token_class" where
  "classify tok =
     (if take 2 tok = ''--'' then Long_flag
      else if take 1 tok = ''-'' \<and> tok \<noteq> ''-'' then Short_flag
      else Positional)"

definition is_flag_token :: "string \<Rightarrow> bool" where
  "is_flag_token tok = (classify tok \<noteq> Positional)"

text \<open>
  Modelled from the spec: lookups by long flag, short flag and child-command name. A
  lookup gives the index of the first match, in declared order.
\<close>

fun find_first :: "('a \<Rightarrow> bool) \<Rightarrow> 'a list \<Rightarrow> nat option" where
  "find_first P [] = None"
| "find_first P (x # xs) = (if P x then Some 0 else map_option Suc (find_first P xs))"

definition lookup_long :: "string \<Rightarrow> optional_spec list \<Rightarrow> nat option" where
  "lookup_long l os = find_first (\<lambda>ptr. snd (optional_abbr ptr) = l) os"

definition lookup_short :: "char \<Rightarrow> optional_spec list \<Rightarrow> nat option" where
  "lookup_short s os = find_first (\<lambda>ptr. fst (optional_abbr ptr) = s) os"

definition lookup_command :: "string \<Rightarrow> command list \<Rightarrow> nat option" where
  "lookup_command n cs = find_first (\<lambda>c. arg_name (cmd_argument c) = n) cs"

text \<open>
  Modelled from the spec: the arity contract. A spec is willing to consume \<^verbatim>\<open>takes()\<close> tokens of the window
  it is offered, where the unbounded sentinel means as many as are available before the
  next flag token or the end of the window. \<open>consume\<close> hands these tokens to the
  object's \<^verbatim>\<open>parse\<close>.
\<close>

definition arity_window :: "nat \<Rightarrow> string list \<Rightarrow> string list" where
  "arity_window arity window =
     (if arity = SIZE_MAX then takeWhile (\<lambda>tok. \<not> is_flag_token tok) window
      else take arity window)"

definition consume_optional :: "string list \<Rightarrow> optional_spec \<Rightarrow> (exn + int) \<times> optional_spec" where
  "consume_optional window spec = optional_parse (arity_window (optional_takes spec) window) spec"

definition consume_required :: "string list \<Rightarrow> required_spec \<Rightarrow> (exn + int) \<times> required_spec" where
  "consume_required window spec = required_parse (arity_window (required_takes spec) window) spec"

text \<open>
  Modelled from the spec: the window a positional is offered is constrained to stop before the next token that
  classifies as a flag.
\<close>

definition positional_window :: "string list \<Rightarrow> string list" where
  "positional_window window = takeWhile (\<lambda>tok. \<not> is_flag_token tok) window"

text \<open>
  Modelled from the spec: what a step writes into a spec is written into the registry
  of the command that owns it; the other fields of the command stay.
\<close>

definition set_optional :: "optional_spec list \<Rightarrow> command \<Rightarrow> command" where
  "set_optional os c = Command (cmd_argument c) (cmd_base c) os (cmd_required c) (cmd_commands c)"

definition set_required :: "required_spec list \<Rightarrow> command \<Rightarrow> command" where
  "set_required rs c = Command (cmd_argument c) (cmd_base c) (cmd_optional c) rs (cmd_commands c)"

definition set_commands :: "command list \<Rightarrow> command \<Rightarrow> command" where
  "set_commands cs c = Command (cmd_argument c) (cmd_base c) (cmd_optional c) (cmd_required c) cs"

text \<open>
  Modelled from the spec: the steps of the engine. A step gives the number of tokens the matched spec consumed, or the error, and the
  command with what the step wrote into its specs. The matched optional spec is
  delegated the window after the flag token; no token left for a value or list spec is
  \<open>MissingValue\<close>.
\<close>

definition option_step :: "nat \<Rightarrow> string list \<Rightarrow> command \<Rightarrow> (parse_error + nat) \<times> command" where
  "option_step i rest c =
     (case consume_optional rest (cmd_optional c ! i) of
        (Inl e, spec') \<Rightarrow> (Inl ConversionFailure, set_optional ((cmd_optional c)[i := spec']) c)
      | (Inr m, spec') \<Rightarrow>
          if m < 0 then (Inl MissingValue, set_optional ((cmd_optional c)[i := spec']) c)
          else (Inr (nat m), set_optional ((cmd_optional c)[i := spec']) c))"

text \<open>
  Modelled from the spec: long-flag handling. Strip the prefix, look up by exact
  long-name match; an absent name is an unknown option.
\<close>

definition long_flag_step :: "string \<Rightarrow> string list \<Rightarrow> command \<Rightarrow> (parse_error + nat) \<times> command" where
  "long_flag_step tok rest c =
     (case lookup_long (drop 2 tok) (cmd_optional c) of
        None \<Rightarrow> (Inl UnknownOption, c)
      | Some i \<Rightarrow> option_step i rest c)"

text \<open>
  Modelled from the spec: short-flag handling. Each character of the token is resolved independently against the
  registered short flags. If all resolve to flag-type specs (arity 0), each is
  incremented once and no further token is consumed. A single short flag of another
  arity is delegated the remaining window as a long flag is. A value-taking short option
  in a group of several characters is an error.
\<close>

fun resolve_group :: "string \<Rightarrow> optional_spec list \<Rightarrow> nat list option" where
  "resolve_group [] os = Some []"
| "resolve_group (ch # chs) os =
     (case lookup_short ch os of
        None \<Rightarrow> None
      | Some i \<Rightarrow> map_option ((#) i) (resolve_group chs os))"

fun increment_each :: "nat list \<Rightarrow> optional_spec list \<Rightarrow> optional_spec list" where
  "increment_each [] os = os"
| "increment_each (i # js) os = increment_each js (os[i := snd (consume_optional [] (os ! i))])"

definition short_flag_step :: "string \<Rightarrow> string list \<Rightarrow> command \<Rightarrow> (parse_error + nat) \<times> command" where
  "short_flag_step tok rest c =
     (case resolve_group (drop 1 tok) (cmd_optional c) of
        None \<Rightarrow> (Inl UnknownOption, c)
      | Some js \<Rightarrow>
          if list_all (\<lambda>i. optional_takes (cmd_optional c ! i) = 0) js
          then (Inr 0, set_optional (increment_each js (cmd_optional c)) c)
          else if length js = 1 then option_step (js ! 0) rest c
          else (Inl AmbiguousShortGroup, c))"

text \<open>
  Modelled from the spec: positional handling. The first not-yet-satisfied required spec (the one at index
  \<open>k\<close>, all earlier ones being satisfied) is offered the constrained window.
\<close>

definition positional_step :: "nat \<Rightarrow> string list \<Rightarrow> command \<Rightarrow> (parse_error + nat) \<times> command" where
  "positional_step k window c =
     (case consume_required (positional_window window) (cmd_required c ! k) of
        (Inl e, spec') \<Rightarrow> (Inl ConversionFailure, set_required ((cmd_required c)[k := spec']) c)
      | (Inr m, spec') \<Rightarrow>
          if m < 1 then (Inl MissingValue, set_required ((cmd_required c)[k := spec']) c)
          else (Inr (nat m), set_required ((cmd_required c)[k := spec']) c))"

text \<open>
  Modelled from the spec: the loop of one invocation of \<^verbatim>\<open>command::parse\<close>. \<open>n\<close> counts the tokens consumed, \<open>k\<close> the required
  specs satisfied. A flag advances the window by 1 plus the tokens consumed, a
  positional by the tokens consumed. With no required spec left, a token that names a
  child command hands the rest of the window to that child, whose result is the result
  of this invocation. The invocation succeeds when the window is exhausted and every
  required spec is satisfied. What a failing invocation has written into its specs stays
  written.
\<close>

function command_parse_loop ::
  "string list \<Rightarrow> int \<Rightarrow> nat \<Rightarrow> command \<Rightarrow> (parse_error + int) \<times> command" where
  "command_parse_loop [] n k c =
     (if k < length (cmd_required c) then (Inl UnsatisfiedRequired, c) else (Inr n, c))"
| "command_parse_loop (tok # rest) n k c =
     (case classify tok of
        Long_flag \<Rightarrow>
          (case long_flag_step tok rest c of
             (Inl e, c') \<Rightarrow> (Inl e, c')
           | (Inr m, c') \<Rightarrow> command_parse_loop (drop m rest) (n + 1 + int m) k c')
      | Short_flag \<Rightarrow>
          (case short_flag_step tok rest c of
             (Inl e, c') \<Rightarrow> (Inl e, c')
           | (Inr m, c') \<Rightarrow> command_parse_loop (drop m rest) (n + 1 + int m) k c')
      | Positional \<Rightarrow>
          if k < length (cmd_required c) then
            (case positional_step k (tok # rest) c of
               (Inl e, c') \<Rightarrow> (Inl e, c')
             | (Inr m, c') \<Rightarrow> command_parse_loop (drop (m - 1) rest) (n + int m) (Suc k) c')
          else
            (case lookup_command tok (cmd_commands c) of
               None \<Rightarrow> (Inl UnexpectedToken, c)
             | Some j \<Rightarrow>
                 (case command_parse_loop rest 0 0 (cmd_commands c ! j) of
                    (r, child') \<Rightarrow> (r, set_commands ((cmd_commands c)[j := child']) c))))"
  by pat_completeness auto
termination
  by (relation "measure (\<lambda>(window, n, k, c). length window)") auto

definition command_parse :: "string list \<Rightarrow> command \<Rightarrow> (parse_error + int) \<times> command" where
  "command_parse argv c = command_parse_loop argv 0 0 c"

text \<open>
  Modelled from the spec: \<^verbatim>\<open>parser::parse\<close>. The root folds the result into success
  or failure; token 0 of its vector is the program name.
\<close>

definition parser_parse :: "string list \<Rightarrow> command \<Rightarrow> bool \<times> command" where
  "parser_parse argv c =
     (case command_parse (drop 1 argv) c of
        (Inl e, c') \<Rightarrow> (False, c')
      | (Inr n, c') \<Rightarrow> (True, c'))"

section \<open>Properties of the argument classes\<close>

lemma push_back_loop_all_converted:
  "map conv span = map Some vs \<Longrightarrow>
   push_back_loop conv span vals cnt = (Inr (cnt + int (length span)), vals @ vs)"
proof (induction span arbitrary: vals cnt vs)
  case Nil
  then show ?case by simp
next
  case (Cons v span)
  then obtain x xs where vs: "vs = x # xs" and x: "conv v = Some x" and xs: "map conv span = map Some xs"
    by (cases vs) auto
  from Cons.IH [OF xs] show ?case by (simp add: vs x)
qed

lemma push_back_loop_returned:
  "push_back_loop conv span vals cnt = (Inr n, vals') \<Longrightarrow>
   n = cnt + int (length span) \<and> (\<exists>vs. map conv span = map Some vs \<and> vals' = vals @ vs)"
proof (induction span arbitrary: vals cnt)
  case Nil
  then show ?case by simp
next
  case (Cons v span)
  then obtain x where x: "conv v = Some x" by (cases "conv v") auto
  with Cons.prems have "push_back_loop conv span (vals @ [x]) (cnt + 1) = (Inr n, vals')" by simp
  from Cons.IH [OF this] obtain vs where "n = cnt + 1 + int (length span)" "map conv span = map Some vs" "vals' = (vals @ [x]) @ vs"
    by blast
  then show ?case using x by (auto intro: exI [of _ "x # vs"])
qed

lemma push_back_loop_thrown:
  "push_back_loop conv span vals cnt = (Inl e, vals') \<Longrightarrow>
   e = Conversion_failure \<and> (\<exists>t\<in>set span. conv t = None)"
  by (induction span arbitrary: vals cnt) (auto split: option.splits)

subsection \<open>What a call of \<^verbatim>\<open>parse\<close> consumes\<close>

text \<open>
  Claim C1. On a window of length \<^verbatim>\<open>len >= 1\<close>, \<^verbatim>\<open>parse\<close> of a value class or of
  a list class converts and stores \<^verbatim>\<open>min(len, takes())\<close> tokens and returns that
  count: a value object stores the converted first token and returns 1; a list object
  converts every token of the window, appends the results in order and returns
  \<^verbatim>\<open>len\<close>. The tokens to be stored are tokens the converter returns a value for.
  (\<^verbatim>\<open>takes()\<close> of a list is the largest \<^verbatim>\<open>size_t\<close>, and \<^verbatim>\<open>len\<close> is an
  \<^verbatim>\<open>int\<close>.)
\<close>

theorem parse_consumes_min_len_takes:
  assumes "1 \<le> int (length argv)"
  shows "(conv (argv ! 0) = Some v \<longrightarrow>
            optional_value_parse conv argv ov = (Inr 1, ov\<lparr>ov_value := Some v\<rparr>) \<and>
            required_value_parse conv argv rv = (Inr 1, rv\<lparr>rv_value := Some v\<rparr>) \<and>
            1 = min (length argv) (optional_value_takes ov) \<and>
            1 = min (length argv) (required_value_takes rv)) \<and>
         (map conv argv = map Some vs \<longrightarrow>
            optional_list_parse conv argv ol =
              (Inr (int (length argv)), ol\<lparr>ol_values := ol_values ol @ vs\<rparr>) \<and>
            required_list_parse conv argv rl =
              (Inr (int (length argv)), rl\<lparr>rl_values := rl_values rl @ vs\<rparr>) \<and>
            (int (length argv) \<le> INT_MAX \<longrightarrow>
               length argv = min (length argv) (optional_list_takes ol) \<and>
               length argv = min (length argv) (required_list_takes rl)))"
proof -
  from assms have len: "\<not> int (length argv) < 1" "argv \<noteq> []" by auto
  have val: "optional_value_parse conv argv ov = (Inr 1, ov\<lparr>ov_value := Some v\<rparr>) \<and>
             required_value_parse conv argv rv = (Inr 1, rv\<lparr>rv_value := Some v\<rparr>)"
    if "conv (argv ! 0) = Some v"
    using len that by (simp add: optional_value_parse_def required_value_parse_def)
  have takes1: "1 = min (length argv) (optional_value_takes ov) \<and>
                1 = min (length argv) (required_value_takes rv)"
    using assms by (cases argv) (simp_all add: optional_value_takes_def required_value_takes_def)
  have lst: "optional_list_parse conv argv ol =
               (Inr (int (length argv)), ol\<lparr>ol_values := ol_values ol @ vs\<rparr>) \<and>
             required_list_parse conv argv rl =
               (Inr (int (length argv)), rl\<lparr>rl_values := rl_values rl @ vs\<rparr>)"
    if "map conv argv = map Some vs"
    using len push_back_loop_all_converted [OF that, of _ 0]
    by (simp add: optional_list_parse_def required_list_parse_def)
  have takes_max: "length argv = min (length argv) (optional_list_takes ol) \<and>
                   length argv = min (length argv) (required_list_takes rl)"
    if "int (length argv) \<le> INT_MAX"
    using that by (simp add: optional_list_takes_def required_list_takes_def INT_MAX_def SIZE_MAX_def)
  from val takes1 lst takes_max show ?thesis by blast
qed

theorem parse_consumes_min_len_takes_witness:
  "optional_value_parse parse_int [''42'', ''x''] (optional_value_new CHR ''n'' ''num'' ''a number'') =
     (Inr 1, (optional_value_new CHR ''n'' ''num'' ''a number'')\<lparr>ov_value := Some 42\<rparr>) \<and>
   required_value_parse parse_int [''42'', ''x''] (required_value_new ''count'' ''the count'') =
     (Inr 1, (required_value_new ''count'' ''the count'')\<lparr>rv_value := Some 42\<rparr>) \<and>
   optional_list_parse parse_string [''a'', ''b''] (optional_list_new CHR ''l'' ''list'' ''a list'') =
     (Inr 2, (optional_list_new CHR ''l'' ''list'' ''a list'')\<lparr>ol_values := [''a'', ''b'']\<rparr>) \<and>
   required_list_parse parse_string [''a'', ''b''] (required_list_new ''files'' ''the files'') =
     (Inr 2, (required_list_new ''files'' ''the files'')\<lparr>rl_values := [''a'', ''b'']\<rparr>) \<and>
   length [''a'', ''b''] =
     min (length [''a'', ''b''])
       (required_list_takes (required_list_new ''files'' ''the files'' :: string required_list))"
proof -
  let ?ov = "optional_value_new CHR ''n'' ''num'' ''a number'' :: int optional_value"
  let ?rv = "required_value_new ''count'' ''the count'' :: int required_value"
  let ?ol = "optional_list_new CHR ''l'' ''list'' ''a list'' :: string optional_list"
  let ?rl = "required_list_new ''files'' ''the files'' :: string required_list"
  have c: "parse_int (([''42'', ''x''] :: string list) ! 0) = Some 42"
    by (simp add: parse_int_def digit_of_def INT_MAX_def)
  have m: "map parse_string [''a'', ''b''] = map Some [''a'', ''b'']"
    by (simp add: parse_string_def)
  have l: "(1::int) \<le> int (length [''42'', ''x''])" "(1::int) \<le> int (length [''a'', ''b''])"
    "int (length [''a'', ''b'']) \<le> INT_MAX"
    by (simp_all add: INT_MAX_def)
  have e: "ol_values ?ol @ [''a'', ''b''] = [''a'', ''b'']" "rl_values ?rl @ [''a'', ''b''] = [''a'', ''b'']"
    "int (length [''a'', ''b'']) = 2"
    by (simp_all add: optional_list_new_def required_list_new_def)
  from parse_consumes_min_len_takes [OF l(1), where conv = parse_int and v = 42
      and ov = ?ov and rv = ?rv and vs = "[]" and ol = "optional_list_new CHR ''l'' ''list'' ''a list''"
      and rl = "required_list_new ''files'' ''the files''"] c
  have 1: "optional_value_parse parse_int [''42'', ''x''] ?ov = (Inr 1, ?ov\<lparr>ov_value := Some 42\<rparr>) \<and>
      required_value_parse parse_int [''42'', ''x''] ?rv = (Inr 1, ?rv\<lparr>rv_value := Some 42\<rparr>)"
    by blast
  from parse_consumes_min_len_takes [OF l(2), where conv = parse_string and v = "''a''"
      and ov = "optional_value_new CHR ''n'' ''num'' ''a number''"
      and rv = "required_value_new ''count'' ''the count''"
      and vs = "[''a'', ''b'']" and ol = ?ol and rl = ?rl] m l(3)
  have "optional_list_parse parse_string [''a'', ''b''] ?ol =
        (Inr (int (length [''a'', ''b''])), ?ol\<lparr>ol_values := ol_values ?ol @ [''a'', ''b'']\<rparr>) \<and>
      required_list_parse parse_string [''a'', ''b''] ?rl =
        (Inr (int (length [''a'', ''b''])), ?rl\<lparr>rl_values := rl_values ?rl @ [''a'', ''b'']\<rparr>) \<and>
      length [''a'', ''b''] = min (length [''a'', ''b'']) (required_list_takes ?rl)"
    by blast
  then have 2: "optional_list_parse parse_string [''a'', ''b''] ?ol =
        (Inr 2, ?ol\<lparr>ol_values := [''a'', ''b'']\<rparr>) \<and>
      required_list_parse parse_string [''a'', ''b''] ?rl =
        (Inr 2, ?rl\<lparr>rl_values := [''a'', ''b'']\<rparr>) \<and>
      length [''a'', ''b''] = min (length [''a'', ''b'']) (required_list_takes ?rl)"
    unfolding e .
  from 1 2 show ?thesis by simp
qed

lemma push_back_loop_outcome:
  "(\<exists>n vs. push_back_loop conv span vals cnt = (Inr n, vals @ vs) \<and> n = cnt + int (length span) \<and>
       map conv span = map Some vs) \<or>
   (\<exists>vals'. push_back_loop conv span vals cnt = (Inl Conversion_failure, vals') \<and>
       (\<exists>t\<in>set span. conv t = None))"
proof (cases "push_back_loop conv span vals cnt")
  case (Pair r vals')
  show ?thesis
  proof (cases r)
    case (Inl e)
    with Pair push_back_loop_thrown [of conv span vals cnt e vals'] show ?thesis by simp
  next
    case (Inr n)
    with Pair push_back_loop_returned [of conv span vals cnt n vals'] show ?thesis by auto
  qed
qed

subsection \<open>The failure sentinel\<close>

text \<open>
  Claim C3. \<^verbatim>\<open>parse\<close> of a value class or of a list class returns the sentinel -1
  if and only if the window is empty (\<^verbatim>\<open>len < 1\<close>). On a non-empty window it returns a
  non-negative count; the one other way out of the call is the exception of a converter
  that does not return a value for a token it is given (the first token for a value
  object, some token of the window for a list object).
\<close>

theorem parse_sentinel_iff_empty_window:
  "((fst (optional_value_parse conv argv ov) = Inr (- 1)) = (int (length argv) < 1)) \<and>
   ((fst (required_value_parse conv argv rv) = Inr (- 1)) = (int (length argv) < 1)) \<and>
   ((fst (optional_list_parse conv argv ol) = Inr (- 1)) = (int (length argv) < 1)) \<and>
   ((fst (required_list_parse conv argv rl) = Inr (- 1)) = (int (length argv) < 1)) \<and>
   (1 \<le> int (length argv) \<longrightarrow>
      ((\<exists>n. fst (optional_value_parse conv argv ov) = Inr n \<and> 0 \<le> n) \<or>
       fst (optional_value_parse conv argv ov) = Inl Conversion_failure \<and> conv (argv ! 0) = None) \<and>
      ((\<exists>n. fst (required_value_parse conv argv rv) = Inr n \<and> 0 \<le> n) \<or>
       fst (required_value_parse conv argv rv) = Inl Conversion_failure \<and> conv (argv ! 0) = None) \<and>
      ((\<exists>n. fst (optional_list_parse conv argv ol) = Inr n \<and> 0 \<le> n) \<or>
       fst (optional_list_parse conv argv ol) = Inl Conversion_failure \<and> (\<exists>t\<in>set argv. conv t = None)) \<and>
      ((\<exists>n. fst (required_list_parse conv argv rl) = Inr n \<and> 0 \<le> n) \<or>
       fst (required_list_parse conv argv rl) = Inl Conversion_failure \<and> (\<exists>t\<in>set argv. conv t = None)))"
proof -
  have ov: "(fst (optional_value_parse conv argv ov) = Inr (- 1)) = (int (length argv) < 1)"
    by (simp add: optional_value_parse_def split: option.splits)
  have rv: "(fst (required_value_parse conv argv rv) = Inr (- 1)) = (int (length argv) < 1)"
    by (simp add: required_value_parse_def split: option.splits)
  have loop: "fst (push_back_loop conv argv vals 0) \<noteq> Inr (- 1)" for vals :: "'a list"
    using push_back_loop_outcome [of conv argv vals 0] by auto
  have ol: "(fst (optional_list_parse conv argv ol) = Inr (- 1)) = (int (length argv) < 1)"
    using loop [of "ol_values ol"] by (auto simp add: optional_list_parse_def split: prod.splits)
  have rl: "(fst (required_list_parse conv argv rl) = Inr (- 1)) = (int (length argv) < 1)"
    using loop [of "rl_values rl"] by (auto simp add: required_list_parse_def split: prod.splits)
  have ov': "(\<exists>n. fst (optional_value_parse conv argv ov) = Inr n \<and> 0 \<le> n) \<or>
       fst (optional_value_parse conv argv ov) = Inl Conversion_failure \<and> conv (argv ! 0) = None"
    if "1 \<le> int (length argv)"
    using that by (auto simp add: optional_value_parse_def split: option.splits)
  have rv': "(\<exists>n. fst (required_value_parse conv argv rv) = Inr n \<and> 0 \<le> n) \<or>
       fst (required_value_parse conv argv rv) = Inl Conversion_failure \<and> conv (argv ! 0) = None"
    if "1 \<le> int (length argv)"
    using that by (auto simp add: required_value_parse_def split: option.splits)
  have ol': "(\<exists>n. fst (optional_list_parse conv argv ol) = Inr n \<and> 0 \<le> n) \<or>
       fst (optional_list_parse conv argv ol) = Inl Conversion_failure \<and> (\<exists>t\<in>set argv. conv t = None)"
    if "1 \<le> int (length argv)"
    using that push_back_loop_outcome [of conv argv "ol_values ol" 0]
    by (auto simp add: optional_list_parse_def)
  have rl': "(\<exists>n. fst (required_list_parse conv argv rl) = Inr n \<and> 0 \<le> n) \<or>
       fst (required_list_parse conv argv rl) = Inl Conversion_failure \<and> (\<exists>t\<in>set argv. conv t = None)"
    if "1 \<le> int (length argv)"
    using that push_back_loop_outcome [of conv argv "rl_values rl" 0]
    by (auto simp add: required_list_parse_def)
  from ov rv ol rl ov' rv' ol' rl' show ?thesis by blast
qed

theorem parse_sentinel_iff_empty_window_witness:
  "fst (optional_value_parse parse_int [] (optional_value_new CHR ''n'' ''num'' ''a number'')) = Inr (- 1) \<and>
   fst (required_list_parse parse_int [] (required_list_new ''counts'' ''the counts'')) = Inr (- 1) \<and>
   fst (required_value_parse parse_int [''x''] (required_value_new ''count'' ''the count'')) \<noteq> Inr (- 1) \<and>
   (\<exists>n. fst (optional_list_parse parse_string [''a'', ''b'']
             (optional_list_new CHR ''l'' ''list'' ''a list'')) = Inr n \<and> 0 \<le> n) \<and>
   (\<exists>n. fst (required_value_parse parse_string [''a'', ''b'']
             (required_value_new ''file'' ''the file'')) = Inr n \<and> 0 \<le> n)"
  using parse_sentinel_iff_empty_window [where conv = parse_int and argv = "[]"
      and ov = "optional_value_new CHR ''n'' ''num'' ''a number''"
      and rl = "required_list_new ''counts'' ''the counts''"]
    parse_sentinel_iff_empty_window [where conv = parse_int and argv = "[''x'']"
      and rv = "required_value_new ''count'' ''the count''"]
    parse_sentinel_iff_empty_window [where conv = parse_string and argv = "[''a'', ''b'']"
      and ol = "optional_list_new CHR ''l'' ''list'' ''a list''"
      and rv = "required_value_new ''file'' ''the file''"]
  by (simp add: parse_string_def)

lemma optional_list_parse_converted:
  assumes "1 \<le> int (length w)" and "map conv w = map Some vs"
  shows "optional_list_parse conv w ol = (Inr (int (length w)), ol\<lparr>ol_values := ol_values ol @ vs\<rparr>)"
proof -
  from assms(1) have "w \<noteq> []" by auto
  with push_back_loop_all_converted [OF assms(2), of "ol_values ol" 0] show ?thesis
    by (simp add: optional_list_parse_def)
qed

lemma required_list_parse_converted:
  assumes "1 \<le> int (length w)" and "map conv w = map Some vs"
  shows "required_list_parse conv w rl = (Inr (int (length w)), rl\<lparr>rl_values := rl_values rl @ vs\<rparr>)"
proof -
  from assms(1) have "w \<noteq> []" by auto
  with push_back_loop_all_converted [OF assms(2), of "rl_values rl" 0] show ?thesis
    by (simp add: required_list_parse_def)
qed

lemma optional_list_parse_returned:
  assumes "optional_list_parse conv w a = (Inr n, b)" and "0 \<le> n"
  shows "\<exists>vs. map conv w = map Some vs \<and> ol_values b = ol_values a @ vs"
proof -
  from assms obtain vals where "push_back_loop conv w (ol_values a) 0 = (Inr n, vals)"
    and "b = a\<lparr>ol_values := vals\<rparr>"
    by (auto simp add: optional_list_parse_def split: if_splits prod.splits)
  with push_back_loop_returned [of conv w "ol_values a" 0 n vals] show ?thesis by auto
qed

lemma required_list_parse_returned:
  assumes "required_list_parse conv w a = (Inr n, b)" and "0 \<le> n"
  shows "\<exists>vs. map conv w = map Some vs \<and> rl_values b = rl_values a @ vs"
proof -
  from assms obtain vals where "push_back_loop conv w (rl_values a) 0 = (Inr n, vals)"
    and "b = a\<lparr>rl_values := vals\<rparr>"
    by (auto simp add: required_list_parse_def split: if_splits prod.splits)
  with push_back_loop_returned [of conv w "rl_values a" 0 n vals] show ?thesis by auto
qed

subsection \<open>Lists accumulate\<close>

text \<open>
  Claim C7. \<^verbatim>\<open>parse\<close> of a list class appends to the values accumulated so far and
  never clears them. Two successive calls with non-empty windows \<open>w1\<close> and \<open>w2\<close>,
  whose tokens the converter converts to \<open>vs1\<close> and \<open>vs2\<close>, both succeed (each returns
  the length of its window), and the stored sequence is then what was stored before,
  followed by \<open>vs1\<close>, followed by \<open>vs2\<close>; the same window parsed twice is appended
  twice. Conversely, any two successive successful calls are of this kind.
\<close>

theorem list_parse_appends:
  "(1 \<le> int (length w1) \<and> 1 \<le> int (length w2) \<and>
    map conv w1 = map Some vs1 \<and> map conv w2 = map Some vs2 \<longrightarrow>
      optional_list_parse conv w1 ol =
        (Inr (int (length w1)), ol\<lparr>ol_values := ol_values ol @ vs1\<rparr>) \<and>
      optional_list_parse conv w2 (snd (optional_list_parse conv w1 ol)) =
        (Inr (int (length w2)), ol\<lparr>ol_values := ol_values ol @ vs1 @ vs2\<rparr>) \<and>
      optional_list_get_values (snd (optional_list_parse conv w2 (snd (optional_list_parse conv w1 ol)))) =
        optional_list_get_values ol @ vs1 @ vs2 \<and>
      required_list_parse conv w1 rl =
        (Inr (int (length w1)), rl\<lparr>rl_values := rl_values rl @ vs1\<rparr>) \<and>
      required_list_parse conv w2 (snd (required_list_parse conv w1 rl)) =
        (Inr (int (length w2)), rl\<lparr>rl_values := rl_values rl @ vs1 @ vs2\<rparr>) \<and>
      required_list_get_values (snd (required_list_parse conv w2 (snd (required_list_parse conv w1 rl)))) =
        required_list_get_values rl @ vs1 @ vs2) \<and>
   (optional_list_parse conv w1 ol = (Inr n1, ol1) \<and> 0 \<le> n1 \<and>
    optional_list_parse conv w2 ol1 = (Inr n2, ol2) \<and> 0 \<le> n2 \<longrightarrow>
      (\<exists>us1 us2. map conv w1 = map Some us1 \<and> map conv w2 = map Some us2 \<and>
         optional_list_get_values ol1 = optional_list_get_values ol @ us1 \<and>
         optional_list_get_values ol2 = optional_list_get_values ol @ us1 @ us2)) \<and>
   (required_list_parse conv w1 rl = (Inr n1, rl1) \<and> 0 \<le> n1 \<and>
    required_list_parse conv w2 rl1 = (Inr n2, rl2) \<and> 0 \<le> n2 \<longrightarrow>
      (\<exists>us1 us2. map conv w1 = map Some us1 \<and> map conv w2 = map Some us2 \<and>
         required_list_get_values rl1 = required_list_get_values rl @ us1 \<and>
         required_list_get_values rl2 = required_list_get_values rl @ us1 @ us2))"
proof (intro conjI impI)
  assume a: "1 \<le> int (length w1) \<and> 1 \<le> int (length w2) \<and>
    map conv w1 = map Some vs1 \<and> map conv w2 = map Some vs2"
  then have l1: "1 \<le> int (length w1)" and l2: "1 \<le> int (length w2)"
    and m1: "map conv w1 = map Some vs1" and m2: "map conv w2 = map Some vs2"
    by simp_all
  show o1: "optional_list_parse conv w1 ol =
      (Inr (int (length w1)), ol\<lparr>ol_values := ol_values ol @ vs1\<rparr>)"
    by (rule optional_list_parse_converted [OF l1 m1])
  show o2: "optional_list_parse conv w2 (snd (optional_list_parse conv w1 ol)) =
      (Inr (int (length w2)), ol\<lparr>ol_values := ol_values ol @ vs1 @ vs2\<rparr>)"
    using optional_list_parse_converted [OF l2 m2, of "ol\<lparr>ol_values := ol_values ol @ vs1\<rparr>"]
    by (simp add: o1)
  show "optional_list_get_values (snd (optional_list_parse conv w2 (snd (optional_list_parse conv w1 ol)))) =
      optional_list_get_values ol @ vs1 @ vs2"
    by (simp add: o2 optional_list_get_values_def)
  show r1: "required_list_parse conv w1 rl =
      (Inr (int (length w1)), rl\<lparr>rl_values := rl_values rl @ vs1\<rparr>)"
    by (rule required_list_parse_converted [OF l1 m1])
  show r2: "required_list_parse conv w2 (snd (required_list_parse conv w1 rl)) =
      (Inr (int (length w2)), rl\<lparr>rl_values := rl_values rl @ vs1 @ vs2\<rparr>)"
    using required_list_parse_converted [OF l2 m2, of "rl\<lparr>rl_values := rl_values rl @ vs1\<rparr>"]
    by (simp add: r1)
  show "required_list_get_values (snd (required_list_parse conv w2 (snd (required_list_parse conv w1 rl)))) =
      required_list_get_values rl @ vs1 @ vs2"
    by (simp add: r2 required_list_get_values_def)
next
  assume a: "optional_list_parse conv w1 ol = (Inr n1, ol1) \<and> 0 \<le> n1 \<and>
    optional_list_parse conv w2 ol1 = (Inr n2, ol2) \<and> 0 \<le> n2"
  from a optional_list_parse_returned [of conv w1 ol n1 ol1] obtain us1 where
    1: "map conv w1 = map Some us1" "ol_values ol1 = ol_values ol @ us1" by blast
  from a optional_list_parse_returned [of conv w2 ol1 n2 ol2] obtain us2 where
    2: "map conv w2 = map Some us2" "ol_values ol2 = ol_values ol1 @ us2" by blast
  from 1 2 show "\<exists>us1 us2. map conv w1 = map Some us1 \<and> map conv w2 = map Some us2 \<and>
      optional_list_get_values ol1 = optional_list_get_values ol @ us1 \<and>
      optional_list_get_values ol2 = optional_list_get_values ol @ us1 @ us2"
    by (auto simp add: optional_list_get_values_def)
next
  assume a: "required_list_parse conv w1 rl = (Inr n1, rl1) \<and> 0 \<le> n1 \<and>
    required_list_parse conv w2 rl1 = (Inr n2, rl2) \<and> 0 \<le> n2"
  from a required_list_parse_returned [of conv w1 rl n1 rl1] obtain us1 where
    1: "map conv w1 = map Some us1" "rl_values rl1 = rl_values rl @ us1" by blast
  from a required_list_parse_returned [of conv w2 rl1 n2 rl2] obtain us2 where
    2: "map conv w2 = map Some us2" "rl_values rl2 = rl_values rl1 @ us2" by blast
  from 1 2 show "\<exists>us1 us2. map conv w1 = map Some us1 \<and> map conv w2 = map Some us2 \<and>
      required_list_get_values rl1 = required_list_get_values rl @ us1 \<and>
      required_list_get_values rl2 = required_list_get_values rl @ us1 @ us2"
    by (auto simp add: required_list_get_values_def)
qed

theorem list_parse_appends_witness:
  "optional_list_parse parse_string [''a'', ''b'']
     ((optional_list_new CHR ''l'' ''list'' ''a list'')\<lparr>ol_values := [''z'']\<rparr>) =
     (Inr 2, (optional_list_new CHR ''l'' ''list'' ''a list'')\<lparr>ol_values := [''z'', ''a'', ''b'']\<rparr>) \<and>
   optional_list_parse parse_string [''c'']
     (snd (optional_list_parse parse_string [''a'', ''b'']
        ((optional_list_new CHR ''l'' ''list'' ''a list'')\<lparr>ol_values := [''z'']\<rparr>))) =
     (Inr 1, (optional_list_new CHR ''l'' ''list'' ''a list'')\<lparr>ol_values := [''z'', ''a'', ''b'', ''c'']\<rparr>) \<and>
   required_list_get_values
     (snd (required_list_parse parse_int [''1'', ''2'']
        (snd (required_list_parse parse_int [''1'', ''2'']
           (required_list_new ''counts'' ''the counts''))))) = [1, 2, 1, 2]"
proof -
  let ?ol = "(optional_list_new CHR ''l'' ''list'' ''a list'')\<lparr>ol_values := [''z'']\<rparr>"
  let ?rl = "required_list_new ''counts'' ''the counts'' :: int required_list"
  have s: "1 \<le> int (length [''a'', ''b'']) \<and> 1 \<le> int (length [''c'']) \<and>
      map parse_string [''a'', ''b''] = map Some [''a'', ''b''] \<and>
      map parse_string [''c''] = map Some [''c'']"
    by (simp add: parse_string_def)
  have i: "1 \<le> int (length [''1'', ''2'']) \<and> 1 \<le> int (length [''1'', ''2'']) \<and>
      map parse_int [''1'', ''2''] = map Some [1, 2] \<and>
      map parse_int [''1'', ''2''] = map Some [1, 2]"
    by (simp add: parse_int_def digit_of_def INT_MAX_def)
  from list_parse_appends [where conv = parse_string and ?w1.0 = "[''a'', ''b'']"
      and ?w2.0 = "[''c'']" and ?vs1.0 = "[''a'', ''b'']" and ?vs2.0 = "[''c'']" and ol = ?ol
      and rl = "required_list_new ''files'' ''the files''" and ?n1.0 = 0 and ?n2.0 = 0
      and ?ol1.0 = ?ol and ?ol2.0 = ?ol and ?rl1.0 = "required_list_new ''files'' ''the files''"
      and ?rl2.0 = "required_list_new ''files'' ''the files''"] s
  have 1: "optional_list_parse parse_string [''a'', ''b''] ?ol =
        (Inr (int (length [''a'', ''b''])), ?ol\<lparr>ol_values := ol_values ?ol @ [''a'', ''b'']\<rparr>)"
      "optional_list_parse parse_string [''c''] (snd (optional_list_parse parse_string [''a'', ''b''] ?ol)) =
        (Inr (int (length [''c''])), ?ol\<lparr>ol_values := ol_values ?ol @ [''a'', ''b''] @ [''c'']\<rparr>)"
    by blast+
  from list_parse_appends [where conv = parse_int and ?w1.0 = "[''1'', ''2'']"
      and ?w2.0 = "[''1'', ''2'']" and ?vs1.0 = "[1, 2]" and ?vs2.0 = "[1, 2]" and rl = ?rl
      and ol = "optional_list_new CHR ''l'' ''list'' ''a list''" and ?n1.0 = 0 and ?n2.0 = 0
      and ?ol1.0 = "optional_list_new CHR ''l'' ''list'' ''a list''"
      and ?ol2.0 = "optional_list_new CHR ''l'' ''list'' ''a list''" and ?rl1.0 = ?rl and ?rl2.0 = ?rl] i
  have 2: "required_list_get_values
        (snd (required_list_parse parse_int [''1'', ''2''] (snd (required_list_parse parse_int [''1'', ''2''] ?rl)))) =
      required_list_get_values ?rl @ [1, 2] @ [1, 2]"
    by blast
  from 1 2 show ?thesis
    by (simp add: optional_list_new_def required_list_new_def required_list_get_values_def)
qed

subsection \<open>The object after a failed call\<close>

text \<open>
  Claim C8. When \<^verbatim>\<open>parse\<close> of a value class or of a list class returns the sentinel
  -1, the object is left as it was: the stored variant and the stored vector are those
  from before the call.
\<close>

theorem parse_sentinel_leaves_payload:
  "(fst (optional_value_parse conv argv ov) = Inr (- 1) \<longrightarrow>
      snd (optional_value_parse conv argv ov) = ov \<and>
      optional_value_get_value (snd (optional_value_parse conv argv ov)) = optional_value_get_value ov) \<and>
   (fst (required_value_parse conv argv rv) = Inr (- 1) \<longrightarrow>
      snd (required_value_parse conv argv rv) = rv \<and>
      required_value_get_value (snd (required_value_parse conv argv rv)) = required_value_get_value rv) \<and>
   (fst (optional_list_parse conv argv ol) = Inr (- 1) \<longrightarrow>
      snd (optional_list_parse conv argv ol) = ol \<and>
      optional_list_get_values (snd (optional_list_parse conv argv ol)) = optional_list_get_values ol) \<and>
   (fst (required_list_parse conv argv rl) = Inr (- 1) \<longrightarrow>
      snd (required_list_parse conv argv rl) = rl \<and>
      required_list_get_values (snd (required_list_parse conv argv rl)) = required_list_get_values rl)"
proof -
  have loop: "fst (push_back_loop conv argv vals 0) \<noteq> Inr (- 1)" for vals :: "'a list"
    using push_back_loop_outcome [of conv argv vals 0] by auto
  have ov: "snd (optional_value_parse conv argv ov) = ov"
    if "fst (optional_value_parse conv argv ov) = Inr (- 1)"
    using that by (simp add: optional_value_parse_def split: if_splits option.splits)
  have rv: "snd (required_value_parse conv argv rv) = rv"
    if "fst (required_value_parse conv argv rv) = Inr (- 1)"
    using that by (simp add: required_value_parse_def split: if_splits option.splits)
  have ol: "snd (optional_list_parse conv argv ol) = ol"
    if "fst (optional_list_parse conv argv ol) = Inr (- 1)"
    using that loop [of "ol_values ol"]
    by (auto simp add: optional_list_parse_def split: if_splits prod.splits)
  have rl: "snd (required_list_parse conv argv rl) = rl"
    if "fst (required_list_parse conv argv rl) = Inr (- 1)"
    using that loop [of "rl_values rl"]
    by (auto simp add: required_list_parse_def split: if_splits prod.splits)
  from ov rv ol rl show ?thesis by simp
qed

theorem parse_sentinel_leaves_payload_witness:
  "snd (optional_value_parse parse_int []
          ((optional_value_new CHR ''n'' ''num'' ''a number'')\<lparr>ov_value := Some 5\<rparr>)) =
     (optional_value_new CHR ''n'' ''num'' ''a number'')\<lparr>ov_value := Some 5\<rparr> \<and>
   required_list_get_values (snd (required_list_parse parse_string []
          ((required_list_new ''files'' ''the files'')\<lparr>rl_values := [''a'']\<rparr>))) =
     required_list_get_values ((required_list_new ''files'' ''the files'')\<lparr>rl_values := [''a'']\<rparr>)"
proof -
  let ?ov = "(optional_value_new CHR ''n'' ''num'' ''a number'')\<lparr>ov_value := Some (5::int)\<rparr>"
  let ?rl = "(required_list_new ''files'' ''the files'')\<lparr>rl_values := [''a'']\<rparr>"
  have o: "fst (optional_value_parse parse_int [] ?ov) = Inr (- 1)"
    by (simp add: optional_value_parse_def)
  have r: "fst (required_list_parse parse_string [] ?rl) = Inr (- 1)"
    by (simp add: required_list_parse_def)
  from parse_sentinel_leaves_payload [where conv = parse_int and argv = "[]" and ov = ?ov] o
  have 1: "snd (optional_value_parse parse_int [] ?ov) = ?ov" by blast
  from parse_sentinel_leaves_payload [where conv = parse_string and argv = "[]" and rl = ?rl] r
  have 2: "required_list_get_values (snd (required_list_parse parse_string [] ?rl)) =
      required_list_get_values ?rl" by blast
  from 1 2 show ?thesis by blast
qed

lemma optional_value_parse_success:
  "optional_value_parse conv argv this = (Inr n, this') \<Longrightarrow> 0 \<le> n \<Longrightarrow>
   argv \<noteq> [] \<and> (\<exists>v. conv (argv ! 0) = Some v \<and> ov_value this' = Some v)"
  by (auto simp add: optional_value_parse_def split: if_splits option.splits)

lemma required_value_parse_success:
  "required_value_parse conv argv this = (Inr n, this') \<Longrightarrow> 0 \<le> n \<Longrightarrow>
   argv \<noteq> [] \<and> (\<exists>v. conv (argv ! 0) = Some v \<and> rv_value this' = Some v)"
  by (auto simp add: required_value_parse_def split: if_splits option.splits)

lemma optional_value_parse_seq_last:
  "calls \<noteq> [] \<Longrightarrow> optional_value_parse_seq conv calls this = Some this' \<Longrightarrow>
   last calls \<noteq> [] \<and> (\<exists>v. conv (last calls ! 0) = Some v \<and> ov_value this' = Some v)"
proof (induction calls arbitrary: this)
  case Nil
  then show ?case by simp
next
  case (Cons argv calls)
  from Cons.prems(2) obtain n mid where
    step: "optional_value_parse conv argv this = (Inr n, mid)" "0 \<le> n"
    and rest: "optional_value_parse_seq conv calls mid = Some this'"
    by (auto split: prod.splits sum.splits if_splits)
  show ?case
  proof (cases calls)
    case Nil
    with rest have "this' = mid" by simp
    with optional_value_parse_success [OF step] Nil show ?thesis by simp
  next
    case (Cons a as)
    with Cons.IH [OF _ rest] show ?thesis by simp
  qed
qed

lemma required_value_parse_seq_last:
  "calls \<noteq> [] \<Longrightarrow> required_value_parse_seq conv calls this = Some this' \<Longrightarrow>
   last calls \<noteq> [] \<and> (\<exists>v. conv (last calls ! 0) = Some v \<and> rv_value this' = Some v)"
proof (induction calls arbitrary: this)
  case Nil
  then show ?case by simp
next
  case (Cons argv calls)
  from Cons.prems(2) obtain n mid where
    step: "required_value_parse conv argv this = (Inr n, mid)" "0 \<le> n"
    and rest: "required_value_parse_seq conv calls mid = Some this'"
    by (auto split: prod.splits sum.splits if_splits)
  show ?case
  proof (cases calls)
    case Nil
    with rest have "this' = mid" by simp
    with required_value_parse_success [OF step] Nil show ?thesis by simp
  next
    case (Cons a as)
    with Cons.IH [OF _ rest] show ?thesis by simp
  qed
qed

lemma optional_value_parse_converted:
  assumes "1 \<le> int (length argv)" and "conv (argv ! 0) = Some v"
  shows "optional_value_parse conv argv ov = (Inr 1, ov\<lparr>ov_value := Some v\<rparr>)"
proof -
  from assms(1) have "argv \<noteq> []" by auto
  with assms(2) show ?thesis by (simp add: optional_value_parse_def)
qed

lemma required_value_parse_converted:
  assumes "1 \<le> int (length argv)" and "conv (argv ! 0) = Some v"
  shows "required_value_parse conv argv rv = (Inr 1, rv\<lparr>rv_value := Some v\<rparr>)"
proof -
  from assms(1) have "argv \<noteq> []" by auto
  with assms(2) show ?thesis by (simp add: required_value_parse_def)
qed

lemma optional_value_parse_seq_converted:
  assumes "calls \<noteq> []"
    and "\<forall>argv\<in>set calls. 1 \<le> int (length argv) \<and> conv (argv ! 0) \<noteq> None"
  shows "optional_value_parse_seq conv calls ov = Some (ov\<lparr>ov_value := conv (last calls ! 0)\<rparr>)"
  using assms
proof (induction calls arbitrary: ov)
  case Nil
  then show ?case by simp
next
  case (Cons argv calls)
  from Cons.prems(2) obtain v where len: "1 \<le> int (length argv)" and v: "conv (argv ! 0) = Some v"
    by auto
  have step: "optional_value_parse conv argv ov = (Inr 1, ov\<lparr>ov_value := Some v\<rparr>)"
    using len v by (rule optional_value_parse_converted)
  show ?case
  proof (cases "calls = []")
    case True
    with step v show ?thesis by simp
  next
    case False
    from Cons.prems(2) have "\<forall>argv\<in>set calls. 1 \<le> int (length argv) \<and> conv (argv ! 0) \<noteq> None"
      by simp
    from Cons.IH [OF False this, of "ov\<lparr>ov_value := Some v\<rparr>"] step False show ?thesis
      by simp
  qed
qed

lemma required_value_parse_seq_converted:
  assumes "calls \<noteq> []"
    and "\<forall>argv\<in>set calls. 1 \<le> int (length argv) \<and> conv (argv ! 0) \<noteq> None"
  shows "required_value_parse_seq conv calls rv = Some (rv\<lparr>rv_value := conv (last calls ! 0)\<rparr>)"
  using assms
proof (induction calls arbitrary: rv)
  case Nil
  then show ?case by simp
next
  case (Cons argv calls)
  from Cons.prems(2) obtain v where len: "1 \<le> int (length argv)" and v: "conv (argv ! 0) = Some v"
    by auto
  have step: "required_value_parse conv argv rv = (Inr 1, rv\<lparr>rv_value := Some v\<rparr>)"
    using len v by (rule required_value_parse_converted)
  show ?case
  proof (cases "calls = []")
    case True
    with step v show ?thesis by simp
  next
    case False
    from Cons.prems(2) have "\<forall>argv\<in>set calls. 1 \<le> int (length argv) \<and> conv (argv ! 0) \<noteq> None"
      by simp
    from Cons.IH [OF False this, of "rv\<lparr>rv_value := Some v\<rparr>"] step False show ?thesis
      by simp
  qed
qed

subsection \<open>The last value wins\<close>

text \<open>
  Claim C9. A call of \<^verbatim>\<open>parse\<close> on a value object with a non-empty window whose
  first token converts returns 1 and stores the converted token, whatever was stored
  before. So a sequence of such calls succeeds and leaves \<^verbatim>\<open>get_value\<close> giving
  exactly the value converted from the first token of the window of the most recent
  call; and after any non-empty sequence of successful calls \<^verbatim>\<open>get_value\<close> gives
  that value.
\<close>

theorem value_parse_last_wins:
  "(1 \<le> int (length argv) \<and> conv (argv ! 0) = Some v \<longrightarrow>
      optional_value_parse conv argv ov = (Inr 1, ov\<lparr>ov_value := Some v\<rparr>) \<and>
      optional_value_get_value (snd (optional_value_parse conv argv ov)) = Some v \<and>
      required_value_parse conv argv rv = (Inr 1, rv\<lparr>rv_value := Some v\<rparr>) \<and>
      required_value_get_value (snd (required_value_parse conv argv rv)) = Some v) \<and>
   (calls \<noteq> [] \<and> (\<forall>w\<in>set calls. 1 \<le> int (length w) \<and> conv (w ! 0) \<noteq> None) \<longrightarrow>
      optional_value_parse_seq conv calls ov = Some (ov\<lparr>ov_value := conv (last calls ! 0)\<rparr>) \<and>
      map_option optional_value_get_value (optional_value_parse_seq conv calls ov) =
        Some (conv (last calls ! 0)) \<and>
      required_value_parse_seq conv calls rv = Some (rv\<lparr>rv_value := conv (last calls ! 0)\<rparr>) \<and>
      map_option required_value_get_value (required_value_parse_seq conv calls rv) =
        Some (conv (last calls ! 0))) \<and>
   (calls \<noteq> [] \<and> optional_value_parse_seq conv calls ov = Some ov' \<longrightarrow>
      (\<exists>u. conv (last calls ! 0) = Some u \<and> optional_value_get_value ov' = Some u)) \<and>
   (calls \<noteq> [] \<and> required_value_parse_seq conv calls rv = Some rv' \<longrightarrow>
      (\<exists>u. conv (last calls ! 0) = Some u \<and> required_value_get_value rv' = Some u))"
proof (intro conjI impI)
  assume a: "1 \<le> int (length argv) \<and> conv (argv ! 0) = Some v"
  then have len: "1 \<le> int (length argv)" and v: "conv (argv ! 0) = Some v" by simp_all
  show o: "optional_value_parse conv argv ov = (Inr 1, ov\<lparr>ov_value := Some v\<rparr>)"
    using len v by (rule optional_value_parse_converted)
  show "optional_value_get_value (snd (optional_value_parse conv argv ov)) = Some v"
    by (simp add: o optional_value_get_value_def)
  show r: "required_value_parse conv argv rv = (Inr 1, rv\<lparr>rv_value := Some v\<rparr>)"
    using len v by (rule required_value_parse_converted)
  show "required_value_get_value (snd (required_value_parse conv argv rv)) = Some v"
    by (simp add: r required_value_get_value_def)
next
  assume a: "calls \<noteq> [] \<and> (\<forall>w\<in>set calls. 1 \<le> int (length w) \<and> conv (w ! 0) \<noteq> None)"
  then have ne: "calls \<noteq> []"
    and all: "\<forall>w\<in>set calls. 1 \<le> int (length w) \<and> conv (w ! 0) \<noteq> None"
    by simp_all
  show o: "optional_value_parse_seq conv calls ov = Some (ov\<lparr>ov_value := conv (last calls ! 0)\<rparr>)"
    using ne all by (rule optional_value_parse_seq_converted)
  show "map_option optional_value_get_value (optional_value_parse_seq conv calls ov) =
      Some (conv (last calls ! 0))"
    by (simp add: o optional_value_get_value_def)
  show r: "required_value_parse_seq conv calls rv = Some (rv\<lparr>rv_value := conv (last calls ! 0)\<rparr>)"
    using ne all by (rule required_value_parse_seq_converted)
  show "map_option required_value_get_value (required_value_parse_seq conv calls rv) =
      Some (conv (last calls ! 0))"
    by (simp add: r required_value_get_value_def)
next
  assume "calls \<noteq> [] \<and> optional_value_parse_seq conv calls ov = Some ov'"
  with optional_value_parse_seq_last [of calls conv ov ov']
  show "\<exists>u. conv (last calls ! 0) = Some u \<and> optional_value_get_value ov' = Some u"
    by (simp add: optional_value_get_value_def)
next
  assume "calls \<noteq> [] \<and> required_value_parse_seq conv calls rv = Some rv'"
  with required_value_parse_seq_last [of calls conv rv rv']
  show "\<exists>u. conv (last calls ! 0) = Some u \<and> required_value_get_value rv' = Some u"
    by (simp add: required_value_get_value_def)
qed

theorem value_parse_last_wins_witness:
  "optional_value_parse parse_int [''7'', ''x'']
     ((optional_value_new CHR ''n'' ''num'' ''a number'')\<lparr>ov_value := Some 5\<rparr>) =
     (Inr 1, (optional_value_new CHR ''n'' ''num'' ''a number'')\<lparr>ov_value := Some 7\<rparr>) \<and>
   optional_value_parse_seq parse_int [[''1''], [''2'', ''9''], [''3'']]
     (optional_value_new CHR ''n'' ''num'' ''a number'') =
     Some ((optional_value_new CHR ''n'' ''num'' ''a number'')\<lparr>ov_value := Some 3\<rparr>) \<and>
   map_option required_value_get_value
     (required_value_parse_seq parse_string [[''x''], [''z'', ''y'']]
        (required_value_new ''file'' ''the file'')) = Some (Some ''z'')"
proof -
  let ?ov = "optional_value_new CHR ''n'' ''num'' ''a number'' :: int optional_value"
  let ?rv = "required_value_new ''file'' ''the file'' :: string required_value"
  have one: "1 \<le> int (length [''7'', ''x'']) \<and> parse_int ([''7'', ''x''] ! 0) = Some 7"
    by (simp add: parse_int_def digit_of_def INT_MAX_def)
  have ints: "[[''1''], [''2'', ''9''], [''3'']] \<noteq> [] \<and>
      (\<forall>w\<in>set [[''1''], [''2'', ''9''], [''3'']]. 1 \<le> int (length w) \<and> parse_int (w ! 0) \<noteq> None)"
    by (simp add: parse_int_def digit_of_def INT_MAX_def)
  have strs: "[[''x''], [''z'', ''y'']] \<noteq> [] \<and>
      (\<forall>w\<in>set [[''x''], [''z'', ''y'']]. 1 \<le> int (length w) \<and> parse_string (w ! 0) \<noteq> None)"
    by (simp add: parse_string_def)
  have last3: "parse_int (last [[''1''], [''2'', ''9''], [''3'']] ! 0) = Some 3"
    by (simp add: parse_int_def digit_of_def INT_MAX_def)
  have lastz: "parse_string (last [[''x''], [''z'', ''y'']] ! 0) = Some ''z''"
    by (simp add: parse_string_def)
  from value_parse_last_wins [where conv = parse_int and argv = "[''7'', ''x'']" and v = 7
      and ov = "?ov\<lparr>ov_value := Some 5\<rparr>" and rv = "required_value_new ''file'' ''the file''"
      and calls = "[]" and ov' = ?ov and rv' = "required_value_new ''file'' ''the file''"] one
  have 1: "optional_value_parse parse_int [''7'', ''x''] (?ov\<lparr>ov_value := Some 5\<rparr>) =
      (Inr 1, ?ov\<lparr>ov_value := Some 5\<rparr>\<lparr>ov_value := Some 7\<rparr>)"
    by blast
  from value_parse_last_wins [where conv = parse_int and argv = "[]" and v = 0
      and ov = ?ov and rv = "required_value_new ''file'' ''the file''"
      and calls = "[[''1''], [''2'', ''9''], [''3'']]" and ov' = ?ov
      and rv' = "required_value_new ''file'' ''the file''"] ints
  have 2: "optional_value_parse_seq parse_int [[''1''], [''2'', ''9''], [''3'']] ?ov =
      Some (?ov\<lparr>ov_value := parse_int (last [[''1''], [''2'', ''9''], [''3'']] ! 0)\<rparr>)"
    by blast
  from value_parse_last_wins [where conv = parse_string and argv = "[]" and v = "[]"
      and ov = "optional_value_new CHR ''n'' ''num'' ''a number''" and rv = ?rv
      and calls = "[[''x''], [''z'', ''y'']]" and ov' = "optional_value_new CHR ''n'' ''num'' ''a number''"
      and rv' = ?rv] strs
  have 3: "map_option required_value_get_value
        (required_value_parse_seq parse_string [[''x''], [''z'', ''y'']] ?rv) =
      Some (parse_string (last [[''x''], [''z'', ''y'']] ! 0))"
    by blast
  from 1 2 3 last3 lastz show ?thesis
    by (simp del: optional_value_parse_seq.simps required_value_parse_seq.simps)
qed

section \<open>Properties of the registries\<close>

text \<open>
  Claim C5. Registering an optional spec whose short flag or long flag equals that of
  an optional spec the command already holds, or a required spec whose name equals that
  of a required spec the command already holds, throws \<^verbatim>\<open>std::runtime_error\<close> at
  once and leaves the command as it was: the registries do not get the duplicate.
  Registration does not involve a parse.
\<close>

theorem duplicate_registration_throws:
  "((\<exists>ptr\<in>set (cmd_optional c). fst (optional_abbr ptr) = s \<or> snd (optional_abbr ptr) = l) \<longrightarrow>
      add_optional_arg ocls s l d c =
        (Inl (Runtime_error (''Duplicated optional argument for '' @ [s] @ ''/'' @ l)), c)) \<and>
   ((\<exists>ptr\<in>set (cmd_required c). argument_name ptr = n) \<longrightarrow>
      add_required_arg rcls n d c =
        (Inl (Runtime_error (''Duplicated required argument for '' @ n)), c))"
proof (cases c)
  case (Command a b os rs cs)
  have o: "list_ex (\<lambda>ptr. case optional_abbr ptr of (s', l') \<Rightarrow> s' = s \<or> l' = l) os"
    if "\<exists>ptr\<in>set os. fst (optional_abbr ptr) = s \<or> snd (optional_abbr ptr) = l"
    using that by (simp add: list_ex_iff case_prod_beta)
  have r: "list_ex (\<lambda>ptr. n = argument_name ptr) rs" if "\<exists>ptr\<in>set rs. argument_name ptr = n"
    using that by (auto simp add: list_ex_iff)
  from o r Command show ?thesis by simp
qed

theorem duplicate_registration_throws_witness:
  "add_optional_arg (Optional_value_class T_int) CHR ''v'' ''volume'' ''how loud''
     (Command \<lparr>arg_name = ''prog'', arg_desc = ''a program''\<rparr> []
        [Optional_flag (optional_flag_new CHR ''v'' ''verbose'' ''talk'')] [] []) =
     (Inl (Runtime_error ''Duplicated optional argument for v/volume''),
      Command \<lparr>arg_name = ''prog'', arg_desc = ''a program''\<rparr> []
        [Optional_flag (optional_flag_new CHR ''v'' ''verbose'' ''talk'')] [] []) \<and>
   add_optional_arg Optional_flag_class CHR ''x'' ''verbose'' ''talk more''
     (Command \<lparr>arg_name = ''prog'', arg_desc = ''a program''\<rparr> []
        [Optional_flag (optional_flag_new CHR ''v'' ''verbose'' ''talk'')] [] []) =
     (Inl (Runtime_error ''Duplicated optional argument for x/verbose''),
      Command \<lparr>arg_name = ''prog'', arg_desc = ''a program''\<rparr> []
        [Optional_flag (optional_flag_new CHR ''v'' ''verbose'' ''talk'')] [] []) \<and>
   add_required_arg (Required_list_class T_string) ''count'' ''the counts''
     (Command \<lparr>arg_name = ''prog'', arg_desc = ''a program''\<rparr> [] []
        [Required_value T_int (required_value_new ''count'' ''the count'')] []) =
     (Inl (Runtime_error ''Duplicated required argument for count''),
      Command \<lparr>arg_name = ''prog'', arg_desc = ''a program''\<rparr> [] []
        [Required_value T_int (required_value_new ''count'' ''the count'')] [])"
proof -
  let ?c = "Command \<lparr>arg_name = ''prog'', arg_desc = ''a program''\<rparr> []
        [Optional_flag (optional_flag_new CHR ''v'' ''verbose'' ''talk'')] [] []"
  let ?d = "Command \<lparr>arg_name = ''prog'', arg_desc = ''a program''\<rparr> [] []
        [Required_value T_int (required_value_new ''count'' ''the count'')] []"
  have s: "\<exists>ptr\<in>set (cmd_optional ?c).
      fst (optional_abbr ptr) = CHR ''v'' \<or> snd (optional_abbr ptr) = ''volume''"
    by (simp add: optional_flag_new_def)
  have l: "\<exists>ptr\<in>set (cmd_optional ?c).
      fst (optional_abbr ptr) = CHR ''x'' \<or> snd (optional_abbr ptr) = ''verbose''"
    by (simp add: optional_flag_new_def)
  have n: "\<exists>ptr\<in>set (cmd_required ?d). argument_name ptr = ''count''"
    by (simp add: required_value_new_def)
  from duplicate_registration_throws [where c = ?c and s = "CHR ''v''" and l = "''volume''"
      and ocls = "Optional_value_class T_int" and d = "''how loud''"] s
  have 1: "add_optional_arg (Optional_value_class T_int) CHR ''v'' ''volume'' ''how loud'' ?c =
      (Inl (Runtime_error (''Duplicated optional argument for '' @ [CHR ''v''] @ ''/'' @ ''volume'')), ?c)"
    by blast
  from duplicate_registration_throws [where c = ?c and s = "CHR ''x''" and l = "''verbose''"
      and ocls = Optional_flag_class and d = "''talk more''"] l
  have 2: "add_optional_arg Optional_flag_class CHR ''x'' ''verbose'' ''talk more'' ?c =
      (Inl (Runtime_error (''Duplicated optional argument for '' @ [CHR ''x''] @ ''/'' @ ''verbose'')), ?c)"
    by blast
  from duplicate_registration_throws [where c = ?d and n = "''count''"
      and rcls = "Required_list_class T_string" and d = "''the counts''"] n
  have 3: "add_required_arg (Required_list_class T_string) ''count'' ''the counts'' ?d =
      (Inl (Runtime_error (''Duplicated required argument for '' @ ''count'')), ?d)"
    by blast
  from 1 2 3 show ?thesis by (simp del: add_optional_arg.simps add_required_arg.simps)
qed

text \<open>
  Claim C6. Every registration method returns a reference to the spec it registered,
  of that spec's own class. The methods for optional specs do: the reference they return
  is the last element of \<^verbatim>\<open>_optional\<close>, which is the object just made. The methods
  for required specs do not: \<^verbatim>\<open>add_req_value\<close> and \<^verbatim>\<open>add_req_list\<close> register the
  spec, but what they have to return is the \<^verbatim>\<open>void\<close> of \<^verbatim>\<open>add_required_arg\<close>, and
  the three-argument \<^verbatim>\<open>add_req_list\<close> registers an optional list.
\<close>

theorem add_req_value_returns_no_reference:
  "add_opt_value T_int CHR ''n'' ''num'' ''a number'' (command_new ''prog'' ''a program'') =
     (Inr 0, Command \<lparr>arg_name = ''prog'', arg_desc = ''a program''\<rparr> []
        [Optional_value T_int (optional_value_new CHR ''n'' ''num'' ''a number'')] [] []) \<and>
   add_req_value T_int ''count'' ''the count'' (command_new ''prog'' ''a program'') =
     (Inr (), Command \<lparr>arg_name = ''prog'', arg_desc = ''a program''\<rparr> [] []
        [Required_value T_int (required_value_new ''count'' ''the count'')] []) \<and>
   add_req_list T_string ''files'' ''the files'' (command_new ''prog'' ''a program'') =
     (Inr (), Command \<lparr>arg_name = ''prog'', arg_desc = ''a program''\<rparr> [] []
        [Required_list T_string (required_list_new ''files'' ''the files'')] []) \<and>
   add_req_list_flag T_string CHR ''f'' ''files'' ''the files'' (command_new ''prog'' ''a program'') =
     (Inr 0, Command \<lparr>arg_name = ''prog'', arg_desc = ''a program''\<rparr> []
        [Optional_list T_string (optional_list_new CHR ''f'' ''files'' ''the files'')] [] [])"
  by (simp add: add_opt_value_def add_req_value_def add_req_list_def add_req_list_flag_def
      command_new_def)

text \<open>
  Claim C10. \<^verbatim>\<open>get_optional\<close> called with a long flag that no registered optional
  spec has, and \<^verbatim>\<open>get_required\<close> called with a name that no registered required
  spec has, call \<^verbatim>\<open>abort()\<close>: they do not return.
\<close>

theorem unknown_name_aborts:
  "((\<forall>ptr\<in>set (cmd_optional c). snd (optional_abbr ptr) \<noteq> l) \<longrightarrow>
      get_optional ocls l c = Inl Abort) \<and>
   ((\<forall>ptr\<in>set (cmd_required c). argument_name ptr \<noteq> n) \<longrightarrow>
      get_required rcls n c = Inl Abort)"
proof -
  have o: "filter (\<lambda>ptr. case optional_abbr ptr of (s', l') \<Rightarrow> l' = l) (cmd_optional c) = []"
    if "\<forall>ptr\<in>set (cmd_optional c). snd (optional_abbr ptr) \<noteq> l"
    using that by (simp add: filter_empty_conv case_prod_beta)
  have r: "filter (\<lambda>ptr. argument_name ptr = n) (cmd_required c) = []"
    if "\<forall>ptr\<in>set (cmd_required c). argument_name ptr \<noteq> n"
    using that by (auto simp add: filter_empty_conv)
  from o r show ?thesis by (simp add: get_optional_def get_required_def)
qed

theorem unknown_name_aborts_witness:
  "get_optional Optional_flag_class ''quiet''
     (Command \<lparr>arg_name = ''prog'', arg_desc = ''a program''\<rparr> []
        [Optional_flag (optional_flag_new CHR ''v'' ''verbose'' ''talk'')] [] []) = Inl Abort \<and>
   get_required (Required_value_class T_int) ''size''
     (Command \<lparr>arg_name = ''prog'', arg_desc = ''a program''\<rparr> [] []
        [Required_value T_int (required_value_new ''count'' ''the count'')] []) = Inl Abort"
proof -
  let ?c = "Command \<lparr>arg_name = ''prog'', arg_desc = ''a program''\<rparr> []
        [Optional_flag (optional_flag_new CHR ''v'' ''verbose'' ''talk'')] [] []"
  let ?d = "Command \<lparr>arg_name = ''prog'', arg_desc = ''a program''\<rparr> [] []
        [Required_value T_int (required_value_new ''count'' ''the count'')] []"
  have o: "\<forall>ptr\<in>set (cmd_optional ?c). snd (optional_abbr ptr) \<noteq> ''quiet''"
    by (simp add: optional_flag_new_def)
  have r: "\<forall>ptr\<in>set (cmd_required ?d). argument_name ptr \<noteq> ''size''"
    by (simp add: required_value_new_def)
  from unknown_name_aborts [where c = ?c and l = "''quiet''" and ocls = Optional_flag_class] o
  have 1: "get_optional Optional_flag_class ''quiet'' ?c = Inl Abort" by blast
  from unknown_name_aborts [where c = ?d and n = "''size''" and rcls = "Required_value_class T_int"] r
  have 2: "get_required (Required_value_class T_int) ''size'' ?d = Inl Abort" by blast
  from 1 2 show ?thesis by blast
qed

section \<open>Properties of the parsing engine\<close>

lemma find_first_Some:
  "find_first P xs = Some i \<Longrightarrow> i < length xs \<and> P (xs ! i)"
proof (induction xs arbitrary: i)
  case Nil
  then show ?case by simp
next
  case (Cons x xs)
  show ?case
  proof (cases "P x")
    case True
    with Cons.prems show ?thesis by simp
  next
    case False
    with Cons.prems obtain j where j: "find_first P xs = Some j" and i: "i = Suc j"
      by auto
    from Cons.IH [OF j] i show ?thesis by simp
  qed
qed

lemma find_first_update:
  "find_first P xs = Some i \<Longrightarrow> P y \<Longrightarrow> find_first P (xs[i := y]) = Some i"
proof (induction xs arbitrary: i)
  case Nil
  then show ?case by simp
next
  case (Cons x xs)
  show ?case
  proof (cases "P x")
    case True
    with Cons.prems show ?thesis by simp
  next
    case False
    with Cons.prems obtain j where j: "find_first P xs = Some j" and i: "i = Suc j"
      by auto
    from Cons.IH [OF j Cons.prems(2)] i False show ?thesis by simp
  qed
qed

lemma consume_flag:
  "consume_optional window (Optional_flag f) =
     (Inr 0, Optional_flag (f\<lparr>flag_cnt := flag_cnt f + 1, flag_flag := True\<rparr>))"
  by (simp add: consume_optional_def optional_flag_parse_def)

lemma set_optional_sel [simp]:
  "cmd_optional (set_optional os c) = os"
  "cmd_required (set_optional os c) = cmd_required c"
  "cmd_commands (set_optional os c) = cmd_commands c"
  "set_optional os (set_optional os' c) = set_optional os c"
  by (simp_all add: set_optional_def)

lemma set_required_sel [simp]:
  "cmd_optional (set_required rs c) = cmd_optional c"
  "cmd_required (set_required rs c) = rs"
  "cmd_commands (set_required rs c) = cmd_commands c"
  by (simp_all add: set_required_def)

lemma short_flag_single:
  assumes "lookup_short s (cmd_optional c) = Some i"
    and "cmd_optional c ! i = Optional_flag f"
  shows "short_flag_step [CHR ''-'', s] rest c =
     (Inr 0, set_optional ((cmd_optional c)
        [i := Optional_flag (f\<lparr>flag_cnt := flag_cnt f + 1, flag_flag := True\<rparr>)]) c)"
  using assms by (simp add: short_flag_step_def consume_flag optional_flag_takes_def)

lemma short_flag_triple:
  assumes "lookup_short s (cmd_optional c) = Some i"
    and "cmd_optional c ! i = Optional_flag f"
  shows "short_flag_step [CHR ''-'', s, s, s] rest c =
     (Inr 0, set_optional ((cmd_optional c)
        [i := Optional_flag (f\<lparr>flag_cnt := flag_cnt f + 3, flag_flag := True\<rparr>)]) c)"
proof -
  from assms(1) have i: "i < length (cmd_optional c)"
    by (auto simp add: lookup_short_def dest: find_first_Some)
  with assms show ?thesis
    by (simp add: short_flag_step_def consume_flag optional_flag_takes_def eval_nat_numeral)
qed

lemma lookup_short_flag_update:
  assumes "lookup_short s os = Some i" and "os ! i = Optional_flag f"
  shows "lookup_short s (os[i := Optional_flag (f\<lparr>flag_cnt := a, flag_flag := b\<rparr>)]) = Some i \<and>
         os[i := Optional_flag (f\<lparr>flag_cnt := a, flag_flag := b\<rparr>)] ! i =
           Optional_flag (f\<lparr>flag_cnt := a, flag_flag := b\<rparr>)"
proof -
  from assms(1) have i: "i < length os" and s: "fst (optional_abbr (os ! i)) = s"
    by (auto simp add: lookup_short_def dest: find_first_Some)
  from s assms(2) have "fst (optional_abbr (Optional_flag (f\<lparr>flag_cnt := a, flag_flag := b\<rparr>))) = s"
    by simp
  with assms(1) i show ?thesis
    by (simp add: lookup_short_def find_first_update)
qed

lemma classify_short: "s \<noteq> CHR ''-'' \<Longrightarrow> classify (CHR ''-'' # s # chs) = Short_flag"
  by (simp add: classify_def)

lemma loop_short_single:
  assumes "lookup_short s (cmd_optional c) = Some i"
    and "cmd_optional c ! i = Optional_flag f" and "s \<noteq> CHR ''-''"
  shows "command_parse_loop ([CHR ''-'', s] # rest) n k c =
     command_parse_loop rest (n + 1) k (set_optional ((cmd_optional c)
        [i := Optional_flag (f\<lparr>flag_cnt := flag_cnt f + 1, flag_flag := True\<rparr>)]) c)"
  using short_flag_single [OF assms(1,2)] classify_short [OF assms(3), of "[]"]
  by simp

text \<open>
  Claim C2. For any command with a registered flag \<^verbatim>\<open>-v\<close> (the spec that the
  lookup of the short flag \<^verbatim>\<open>v\<close> finds is a flag, not yet matched), parsing
  \<^verbatim>\<open>["-v", "-v", "-v"]\<close> and parsing \<^verbatim>\<open>["-vvv"]\<close> both leave that flag with
  occurrence count 3 and set; nothing else in the command changes, and the parse
  succeeds unless the command has required specs, which these vectors do not satisfy.
\<close>

theorem repeated_flag_counts_three:
  assumes "lookup_short CHR ''v'' (cmd_optional c) = Some i"
    and "cmd_optional c ! i = Optional_flag f"
    and "optional_flag_cnt f = 0"
  shows "command_parse [''-v'', ''-v'', ''-v''] c =
           (if cmd_required c = [] then Inr 3 else Inl UnsatisfiedRequired,
            set_optional ((cmd_optional c)[i := Optional_flag (f\<lparr>flag_cnt := 3, flag_flag := True\<rparr>)]) c) \<and>
         command_parse [''-vvv''] c =
           (if cmd_required c = [] then Inr 1 else Inl UnsatisfiedRequired,
            set_optional ((cmd_optional c)[i := Optional_flag (f\<lparr>flag_cnt := 3, flag_flag := True\<rparr>)]) c) \<and>
         (\<exists>f'. cmd_optional (snd (command_parse [''-v'', ''-v'', ''-v''] c)) ! i = Optional_flag f' \<and>
            optional_flag_cnt f' = 3 \<and> optional_flag_is_set f') \<and>
         (\<exists>f'. cmd_optional (snd (command_parse [''-vvv''] c)) ! i = Optional_flag f' \<and>
            optional_flag_cnt f' = 3 \<and> optional_flag_is_set f')"
proof -
  let ?os = "cmd_optional c"
  let ?f1 = "f\<lparr>flag_cnt := flag_cnt f + 1, flag_flag := True\<rparr>"
  let ?f2 = "f\<lparr>flag_cnt := flag_cnt f + 2, flag_flag := True\<rparr>"
  let ?f3 = "f\<lparr>flag_cnt := flag_cnt f + 3, flag_flag := True\<rparr>"
  let ?c1 = "set_optional (?os[i := Optional_flag ?f1]) c"
  let ?c2 = "set_optional (?os[i := Optional_flag ?f2]) c"
  let ?c3 = "set_optional (?os[i := Optional_flag ?f3]) c"
  have v: "CHR ''v'' \<noteq> CHR ''-''" by simp
  from assms(3) have zero: "flag_cnt f = 0" by (simp add: optional_flag_cnt_def)
  have s1: "command_parse_loop [''-v'', ''-v'', ''-v''] 0 0 c = command_parse_loop [''-v'', ''-v''] 1 0 ?c1"
    using loop_short_single [OF assms(1,2) v, of "[''-v'', ''-v'']" 0 0]
    by (simp add: eval_nat_numeral del: command_parse_loop.simps)
  from lookup_short_flag_update [OF assms(1,2), where a = "flag_cnt f + 1" and b = True]
  have l1: "lookup_short CHR ''v'' (cmd_optional ?c1) = Some i" "cmd_optional ?c1 ! i = Optional_flag ?f1"
    by simp_all
  have s2: "command_parse_loop [''-v'', ''-v''] 1 0 ?c1 = command_parse_loop [''-v''] 2 0 ?c2"
    using loop_short_single [OF l1 v, of "[''-v'']" 1 0]
    by (simp add: eval_nat_numeral del: command_parse_loop.simps)
  from lookup_short_flag_update [OF assms(1,2), where a = "flag_cnt f + 2" and b = True]
  have l2: "lookup_short CHR ''v'' (cmd_optional ?c2) = Some i" "cmd_optional ?c2 ! i = Optional_flag ?f2"
    by simp_all
  have s3: "command_parse_loop [''-v''] 2 0 ?c2 = command_parse_loop [] 3 0 ?c3"
    using loop_short_single [OF l2 v, of "[]" 2 0]
    by (simp add: eval_nat_numeral del: command_parse_loop.simps)
  have e: "command_parse_loop [] n 0 ?c3 =
      (if cmd_required c = [] then Inr n else Inl UnsatisfiedRequired, ?c3)" for n
    by simp
  have t: "command_parse_loop [''-vvv''] 0 0 c = command_parse_loop [] 1 0 ?c3"
    using short_flag_triple [OF assms(1,2), of "[]"] classify_short [OF v, of "''vv''"]
    by simp
  let ?g = "f\<lparr>flag_cnt := 3, flag_flag := True\<rparr>"
  let ?d = "set_optional (?os[i := Optional_flag ?g]) c"
  from zero have g: "?c3 = ?d" by simp
  from s1 s2 s3 e [of 3] g
  have three: "command_parse [''-v'', ''-v'', ''-v''] c =
      (if cmd_required c = [] then Inr 3 else Inl UnsatisfiedRequired, ?d)"
    by (simp add: command_parse_def del: command_parse_loop.simps)
  from t e [of 1] g
  have group: "command_parse [''-vvv''] c =
      (if cmd_required c = [] then Inr 1 else Inl UnsatisfiedRequired, ?d)"
    by (simp add: command_parse_def del: command_parse_loop.simps)
  from assms(1) have i: "i < length ?os"
    by (auto simp add: lookup_short_def dest: find_first_Some)
  then have at: "cmd_optional ?d ! i = Optional_flag ?g" by simp
  have cnt: "optional_flag_cnt ?g = 3 \<and> optional_flag_is_set ?g"
    by (simp add: optional_flag_cnt_def optional_flag_is_set_def)
  from at cnt have "\<exists>f'. cmd_optional ?d ! i = Optional_flag f' \<and>
      optional_flag_cnt f' = 3 \<and> optional_flag_is_set f'"
    by blast
  with three group show ?thesis by simp
qed


theorem repeated_flag_counts_three_witness:
  "command_parse [''-v'', ''-v'', ''-v'']
     (snd (add_opt_flag CHR ''v'' ''verbose'' ''talk'' (command_new ''prog'' ''a program''))) =
     (Inr 3, Command \<lparr>arg_name = ''prog'', arg_desc = ''a program''\<rparr> []
        [Optional_flag ((optional_flag_new CHR ''v'' ''verbose'' ''talk'')
           \<lparr>flag_cnt := 3, flag_flag := True\<rparr>)] [] []) \<and>
   command_parse [''-vvv'']
     (snd (add_opt_flag CHR ''v'' ''verbose'' ''talk'' (command_new ''prog'' ''a program''))) =
     (Inr 1, Command \<lparr>arg_name = ''prog'', arg_desc = ''a program''\<rparr> []
        [Optional_flag ((optional_flag_new CHR ''v'' ''verbose'' ''talk'')
           \<lparr>flag_cnt := 3, flag_flag := True\<rparr>)] [] [])"
proof -
  let ?f = "optional_flag_new CHR ''v'' ''verbose'' ''talk''"
  let ?c = "Command \<lparr>arg_name = ''prog'', arg_desc = ''a program''\<rparr> [] [Optional_flag ?f] [] []"
  have c: "snd (add_opt_flag CHR ''v'' ''verbose'' ''talk'' (command_new ''prog'' ''a program'')) = ?c"
    by (simp add: add_opt_flag_def command_new_def)
  have 1: "lookup_short CHR ''v'' (cmd_optional ?c) = Some 0"
    by (simp add: lookup_short_def optional_flag_new_def)
  have 2: "cmd_optional ?c ! 0 = Optional_flag ?f" by simp
  have 3: "optional_flag_cnt ?f = 0"
    by (simp add: optional_flag_cnt_def optional_flag_new_def)
  from repeated_flag_counts_three [OF 1 2 3] show ?thesis
    unfolding c by (simp add: set_optional_def)
qed

lemma positional_window_abflag:
  "positional_window [''a'', ''b'', ''--flag''] = [''a'', ''b'']"
  by (simp add: positional_window_def is_flag_token_def classify_def)

lemma positional_step_list:
  assumes "cmd_required c ! k = Required_list T_string l"
  shows "positional_step k [''a'', ''b'', ''--flag''] c =
     (Inr 2, set_required ((cmd_required c)[k := Required_list T_string
        (l\<lparr>rl_values := rl_values l @ [String_val ''a'', String_val ''b'']\<rparr>)]) c)"
  using assms
  by (simp add: positional_step_def positional_window_abflag consume_required_def
      required_list_takes_def arity_window_def is_flag_token_def classify_def
      required_list_parse_def parse_string_def)

lemma long_flag_step_flag:
  assumes "lookup_long l (cmd_optional c) = Some i" and "cmd_optional c ! i = Optional_flag f"
  shows "long_flag_step (''--'' @ l) rest c =
     (Inr 0, set_optional ((cmd_optional c)
        [i := Optional_flag (f\<lparr>flag_cnt := flag_cnt f + 1, flag_flag := True\<rparr>)]) c)"
  using assms by (simp add: long_flag_step_def option_step_def consume_flag)

text \<open>
  Claim C4. For a command whose first required spec is a list of strings (with nothing
  accumulated yet) and which has a registered flag \<^verbatim>\<open>--flag\<close>, parsing
  \<^verbatim>\<open>["a", "b", "--flag"]\<close> assigns the list the values \<^verbatim>\<open>["a", "b"]\<close> and counts
  \<^verbatim>\<open>--flag\<close> as an occurrence of the flag, not as a list element. The window offered
  to a positional holds no token that classifies as a flag, and ends at the end of the
  window or right before such a token; the tokens from there on have no influence on
  what the positional consumes.
\<close>

theorem positional_list_stops_before_flag:
  assumes "cmd_required c \<noteq> []"
    and "cmd_required c ! 0 = Required_list T_string l"
    and "required_list_get_values l = []"
    and "lookup_long ''flag'' (cmd_optional c) = Some i"
    and "cmd_optional c ! i = Optional_flag f"
  shows "command_parse [''a'', ''b'', ''--flag''] c =
           (if length (cmd_required c) = 1 then Inr 3 else Inl UnsatisfiedRequired,
            set_optional ((cmd_optional c)
               [i := Optional_flag (f\<lparr>flag_cnt := flag_cnt f + 1, flag_flag := True\<rparr>)])
              (set_required ((cmd_required c)
                 [0 := Required_list T_string
                    (l\<lparr>rl_values := [String_val ''a'', String_val ''b'']\<rparr>)]) c)) \<and>
         (\<exists>l'. cmd_required (snd (command_parse [''a'', ''b'', ''--flag''] c)) ! 0 =
               Required_list T_string l' \<and>
            required_list_get_values l' = [String_val ''a'', String_val ''b'']) \<and>
         positional_window [''a'', ''b'', ''--flag''] = [''a'', ''b''] \<and>
         (\<forall>tok\<in>set (positional_window window). classify tok = Positional) \<and>
         (\<exists>rest. window = positional_window window @ rest \<and>
            (rest = [] \<or> classify (hd rest) \<noteq> Positional)) \<and>
         positional_step k window c = positional_step k (positional_window window) c"
proof -
  let ?l = "l\<lparr>rl_values := [String_val ''a'', String_val ''b'']\<rparr>"
  let ?c1 = "set_required ((cmd_required c)[0 := Required_list T_string ?l]) c"
  let ?c2 = "set_optional ((cmd_optional c)
      [i := Optional_flag (f\<lparr>flag_cnt := flag_cnt f + 1, flag_flag := True\<rparr>)]) ?c1"
  from assms(3) have empty: "rl_values l = []" by (simp add: required_list_get_values_def)
  have a: "classify ''a'' = Positional" and fl: "classify ''--flag'' = Long_flag"
    by (simp_all add: classify_def)
  from assms(1) have k: "0 < length (cmd_required c)" by simp
  have p: "positional_step 0 [''a'', ''b'', ''--flag''] c = (Inr 2, ?c1)"
    using positional_step_list [OF assms(2)] empty by simp
  have s1: "command_parse_loop [''a'', ''b'', ''--flag''] 0 0 c = command_parse_loop [''--flag''] 2 1 ?c1"
    using a k p by simp
  have f: "long_flag_step ''--flag'' [] ?c1 = (Inr 0, ?c2)"
    using long_flag_step_flag [of "''flag''" ?c1 i f "[]"] assms(4,5) by simp
  have s2: "command_parse_loop [''--flag''] 2 1 ?c1 = command_parse_loop [] 3 1 ?c2"
    using fl f by simp
  have s3: "command_parse_loop [] 3 1 ?c2 =
      (if length (cmd_required c) = 1 then Inr 3 else Inl UnsatisfiedRequired, ?c2)"
    using k by (cases "cmd_required c") auto
  have parse: "command_parse [''a'', ''b'', ''--flag''] c =
      (if length (cmd_required c) = 1 then Inr 3 else Inl UnsatisfiedRequired, ?c2)"
    unfolding command_parse_def s1 s2 s3 ..
  from k have "cmd_required ?c2 ! 0 = Required_list T_string ?l \<and>
      required_list_get_values ?l = [String_val ''a'', String_val ''b'']"
    by (simp add: required_list_get_values_def)
  with parse have get: "\<exists>l'. cmd_required (snd (command_parse [''a'', ''b'', ''--flag''] c)) ! 0 =
        Required_list T_string l' \<and>
      required_list_get_values l' = [String_val ''a'', String_val ''b'']"
    by simp
  have no_flag: "\<forall>tok\<in>set (positional_window window). classify tok = Positional"
    by (auto simp add: positional_window_def is_flag_token_def dest: set_takeWhileD)
  have split: "\<exists>rest. window = positional_window window @ rest \<and>
      (rest = [] \<or> classify (hd rest) \<noteq> Positional)"
  proof (intro exI conjI)
    show "window = positional_window window @ dropWhile (\<lambda>tok. \<not> is_flag_token tok) window"
      by (simp add: positional_window_def)
    show "dropWhile (\<lambda>tok. \<not> is_flag_token tok) window = [] \<or>
        classify (hd (dropWhile (\<lambda>tok. \<not> is_flag_token tok) window)) \<noteq> Positional"
      using hd_dropWhile [of "\<lambda>tok. \<not> is_flag_token tok" window]
      by (auto simp add: is_flag_token_def)
  qed
  have idem: "positional_step k window c = positional_step k (positional_window window) c"
    by (simp add: positional_step_def positional_window_def)
  from parse get positional_window_abflag no_flag split idem show ?thesis by blast
qed

theorem positional_list_stops_before_flag_witness:
  "command_parse [''a'', ''b'', ''--flag'']
     (snd (add_opt_flag CHR ''f'' ''flag'' ''a flag''
        (snd (add_req_list T_string ''files'' ''the files'' (command_new ''prog'' ''a program''))))) =
     (Inr 3, Command \<lparr>arg_name = ''prog'', arg_desc = ''a program''\<rparr> []
        [Optional_flag ((optional_flag_new CHR ''f'' ''flag'' ''a flag'')
           \<lparr>flag_cnt := 1, flag_flag := True\<rparr>)]
        [Required_list T_string ((required_list_new ''files'' ''the files'')
           \<lparr>rl_values := [String_val ''a'', String_val ''b'']\<rparr>)] []) \<and>
   positional_window [''a'', ''b'', ''--flag''] = [''a'', ''b'']"
proof -
  let ?f = "optional_flag_new CHR ''f'' ''flag'' ''a flag''"
  let ?l = "required_list_new ''files'' ''the files'' :: val required_list"
  let ?c = "Command \<lparr>arg_name = ''prog'', arg_desc = ''a program''\<rparr> []
      [Optional_flag ?f] [Required_list T_string ?l] []"
  have c: "snd (add_opt_flag CHR ''f'' ''flag'' ''a flag''
      (snd (add_req_list T_string ''files'' ''the files'' (command_new ''prog'' ''a program'')))) = ?c"
    by (simp add: add_opt_flag_def add_req_list_def command_new_def)
  have 1: "cmd_required ?c \<noteq> []" by simp
  have 2: "cmd_required ?c ! 0 = Required_list T_string ?l" by simp
  have 3: "required_list_get_values ?l = []"
    by (simp add: required_list_get_values_def required_list_new_def)
  have 4: "lookup_long ''flag'' (cmd_optional ?c) = Some 0"
    by (simp add: lookup_long_def optional_flag_new_def)
  have 5: "cmd_optional ?c ! 0 = Optional_flag ?f" by simp
  from positional_list_stops_before_flag [OF 1 2 3 4 5] show ?thesis
    unfolding c by (simp add: set_optional_def set_required_def optional_flag_new_def)
qed

end
